theory Spec2Isabelle
  imports Main "HOL-Library.Sublist" "HOL-Library.AList"
begin

section \<open>Python strings\<close>

text \<open>
  A Python \<open>str\<close> is a \<open>string\<close>; a character is read as its code point (below 256).
  The functions below are the string operations \<open>api/clickhouse_client.py\<close> and
  \<open>api/clickhouse_server.py\<close> use.
\<close>

text \<open>\<open>sub in s\<close>: \<open>sub\<close> occurs in \<open>s\<close> as a contiguous run of characters.\<close>

fun contains :: "string \<Rightarrow> string \<Rightarrow> bool" where
  "contains sub [] = (sub = [])"
| "contains sub (c # cs) = (prefix sub (c # cs) \<or> contains sub cs)"

text \<open>
  \<open>s.split(sep)\<close> for a non-empty \<open>sep\<close>: the pieces of \<open>s\<close> between the occurrences of
  \<open>sep\<close>, found from the left and not overlapping. \<open>k\<close> counts the characters of the
  occurrence just matched that are still to be skipped, \<open>acc\<close> is the current piece,
  reversed. (Python raises ValueError on an empty separator; every separator of the
  program is a non-empty literal.)
\<close>

fun split_aux :: "string \<Rightarrow> nat \<Rightarrow> string \<Rightarrow> string \<Rightarrow> string list" where
  "split_aux sep k acc [] = [rev acc]"
| "split_aux sep k acc (c # cs) =
     (if 0 < k then split_aux sep (k - 1) acc cs
      else if prefix sep (c # cs) then rev acc # split_aux sep (length sep - 1) [] cs
      else split_aux sep 0 (c # acc) cs)"

definition split_str :: "string \<Rightarrow> string \<Rightarrow> string list" where
  "split_str sep s = split_aux sep 0 [] s"

text \<open>\<open>sep.join(xs)\<close>.\<close>

fun join :: "string \<Rightarrow> string list \<Rightarrow> string" where
  "join sep [] = []"
| "join sep [x] = x"
| "join sep (x # y # ys) = x @ sep @ join sep (y # ys)"

text \<open>
  \<open>s.replace(old, new)\<close> for a non-empty \<open>old\<close>: every occurrence of \<open>old\<close>, found from the
  left and not overlapping, becomes \<open>new\<close>; that is \<open>new.join(s.split(old))\<close>.
\<close>

definition replace_str :: "string \<Rightarrow> string \<Rightarrow> string \<Rightarrow> string" where
  "replace_str old new s = join new (split_str old s)"

text \<open>
  \<open>c.isspace()\<close> on the code points below 256: tab to carriage return, the four
  separators 28 to 31, the space, NEL (133) and the no-break space (160).
\<close>

definition isspace :: "char \<Rightarrow> bool" where
  "isspace c = (let n = (of_char c :: nat) in
     (9 \<le> n \<and> n \<le> 13) \<or> (28 \<le> n \<and> n \<le> 32) \<or> n = 133 \<or> n = 160)"

text \<open>\<open>s.strip()\<close>.\<close>

definition strip :: "string \<Rightarrow> string" where
  "strip s = rev (dropWhile isspace (rev (dropWhile isspace s)))"

section \<open>Exceptions\<close>

text \<open>
  \<open>exn\<close> holds the exceptions of class \<open>Exception\<close>, the class both handlers of the
  program name (\<open>except Exception as e\<close>). \<open>ValueError\<close>, \<open>KeyError\<close>, \<open>IndexError\<close> and
  \<open>HTTPException\<close> are raised by the program's own statements; \<open>Raised m\<close> is an exception
  raised inside an external call (the chat completion, the MCP round trip, the JSON
  decoder, the database driver), \<open>m\<close> being its \<open>str\<close>.
\<close>

datatype exn =
    ValueError string
  | KeyError string
  | IndexError string
  | HTTPException nat string
  | Raised string

fun digit_char :: "nat \<Rightarrow> char" where
  "digit_char n = char_of (48 + n)"

fun decimal :: "nat \<Rightarrow> string" where
  "decimal n = (if n < 10 then [digit_char n] else decimal (n div 10) @ [digit_char (n mod 10)])"

text \<open>
  \<open>str(e)\<close>. A \<open>KeyError\<close> prints the \<open>repr\<close> of its key (the keys of the program are
  plain identifiers, quoted with \<open>'\<close>); Starlette's \<open>HTTPException\<close> prints
  \<open>status_code: detail\<close>.
\<close>

fun str_exn :: "exn \<Rightarrow> string" where
  "str_exn (ValueError m) = m"
| "str_exn (KeyError k) = [CHR 39] @ k @ [CHR 39]"
| "str_exn (IndexError m) = m"
| "str_exn (HTTPException code detail) = decimal code @ '': '' @ detail"
| "str_exn (Raised m) = m"

text \<open>
  \<open>xs[i]\<close> for \<open>i \<ge> 0\<close>: past the end it raises IndexError, whose message names the type
  of the sequence (\<open>what\<close>).
\<close>

definition getitem :: "string \<Rightarrow> 'a list \<Rightarrow> nat \<Rightarrow> exn + 'a" where
  "getitem what xs i =
     (if i < length xs then Inr (xs ! i) else Inl (IndexError (what @ '' index out of range'')))"

section \<open>The gateways and the session\<close>

text \<open>
  The values of the decoded classification object that the program reads: a string or
  a list of strings (the reasoning gateway's contract is
  \<open>{query_type: string, queries: sequence of string}\<close>). The object itself is a \<open>dict\<close>,
  a map from keys to such values.
\<close>

datatype jval = JStr string | JList "string list"

text \<open>An item of \<open>tool_result.content\<close>: one with a \<open>text\<close> attribute, a \<open>dict\<close>, or another.\<close>

datatype content_item =
    TextContent string
  | DictContent "string \<rightharpoonup> string"
  | OtherContent

text \<open>The templates of \<open>prompts_clickhouse.yaml\<close> (\<open>self.prompts["prompts"][name]["template"]\<close>).\<close>

record prompt_templates =
  rephrase_user_query :: string
  query_generation_prompt :: string
  retry_query_prompt :: string
  summarization_prompt :: string

text \<open>
  What the client calls outside the program, over a state \<open>'w\<close> of the outside world that
  every call may read and change, so that a gateway may answer differently each time:
  \<^item> \<open>chat json msgs\<close> is \<open>self.client.chat.completions.create(...)\<close> followed by
    \<open>.choices[0].message.content\<close>, with the messages as (role, content) pairs and
    \<open>json\<close> saying whether \<open>response_format\<close> asks for a JSON object;
  \<^item> \<open>loads\<close> is \<open>json.loads\<close>;
  \<^item> \<open>call_tool name arguments\<close> is one MCP round trip (\<open>stdio_client\<close>, \<open>ClientSession\<close>,
    \<open>initialize\<close>, \<open>session.call_tool\<close>), giving \<open>tool_result.content\<close>;
  \<^item> \<open>repr_result\<close> formats a tool result inside an f-string.
  Each may raise (\<open>Inl\<close>).
\<close>

record 'w gateways =
  prompts :: prompt_templates
  chat :: "bool \<Rightarrow> (string \<times> string) list \<Rightarrow> 'w \<Rightarrow> (exn + string) \<times> 'w"
  loads :: "string \<Rightarrow> exn + (string \<rightharpoonup> jval)"
  call_tool :: "string \<Rightarrow> (string \<times> string) list \<Rightarrow> 'w \<Rightarrow> (exn + content_item list) \<times> 'w"
  repr_result :: "content_item list \<Rightarrow> string"

text \<open>
  The calls a run makes are recorded in order: which method made the call, the prompt
  or SQL text it sent, and what the method got back.
\<close>

datatype kind = Classify | Generate | Execute | Repair | Summarize

datatype event = Event (kind: kind) (request: string) (outcome: "exn + string")

text \<open>
  The attributes \<open>selected_table\<close> and \<open>table_schema\<close> of the \<open>TextToSQLClient\<close> instance;
  \<open>None\<close> is an attribute that was never set (\<open>hasattr\<close> is false).
\<close>

record client =
  selected_table :: "string option"
  table_schema :: "string option"

text \<open>The returned \<open>dict\<close>: its keys in insertion order, each with a string or a list of strings.\<close>

datatype pyval = Str string | StrList "string list"

type_synonym envelope = "(string \<times> pyval) list"

definition has_field :: "string \<Rightarrow> envelope \<Rightarrow> bool" where
  "has_field k e = (map_of e k \<noteq> None)"

section \<open>\<open>TextToSQLClient\<close>: the five gateway methods\<close>

text \<open>\<open>d[k]\<close> on a \<open>dict\<close>.\<close>

definition subscript :: "(string \<rightharpoonup> 'a) \<Rightarrow> string \<Rightarrow> exn + 'a" where
  "subscript d k = (case d k of None \<Rightarrow> Inl (KeyError k) | Some v \<Rightarrow> Inr v)"

text \<open>Truth value of a decoded value: an empty string or list is false.\<close>

fun truthy :: "jval \<Rightarrow> bool" where
  "truthy (JStr s) = (s \<noteq> [])"
| "truthy (JList xs) = (xs \<noteq> [])"

text \<open>\<open>v[0]\<close>: the first character of a string (a string itself), the first item of a list.\<close>

fun first_item :: "jval \<Rightarrow> exn + string" where
  "first_item (JStr s) = (case s of [] \<Rightarrow> Inl (IndexError ''string index out of range'') | c # _ \<Rightarrow> Inr [c])"
| "first_item (JList xs) = getitem ''list'' xs 0"

definition irrelevant_query :: string where
  "irrelevant_query = ''Invalid or irrelevant query. Please ask a database-related question.''"

definition rephrase_query ::
  "'w gateways \<Rightarrow> string \<Rightarrow> 'w \<Rightarrow> (exn + string) \<times> 'w \<times> event list" where
  "rephrase_query gw user_query w =
     (let prompt = replace_str ''{{ user_query }}'' user_query (rephrase_user_query (prompts gw)) in
      case chat gw True
             [(''system'', ''You are an expert at analyzing queries and returning results in JSON format.''),
              (''user'', prompt)] w of
        (Inl e, w') \<Rightarrow> (Inl e, w', [Event Classify prompt (Inl e)])
      | (Inr content, w') \<Rightarrow>
          (let tr = [Event Classify prompt (Inr content)] in
           case loads gw content of
             Inl e \<Rightarrow> (Inl e, w', tr)
           | Inr result \<Rightarrow>
               (case subscript result ''query_type'' of
                  Inl e \<Rightarrow> (Inl e, w', tr)
                | Inr query_type \<Rightarrow>
                    if query_type = JStr ''wrong'' then (Inl (ValueError irrelevant_query), w', tr)
                    else
                      (case subscript result ''queries'' of
                         Inl e \<Rightarrow> (Inl e, w', tr)
                       | Inr queries \<Rightarrow>
                           if truthy queries then (first_item queries, w', tr)
                           else (Inr user_query, w', tr)))))"

text \<open>The prompt of \<open>generate_sql\<close>: the template filled in, then the question on a line of its own.\<close>

definition generation_prompt :: "prompt_templates \<Rightarrow> string \<Rightarrow> string \<Rightarrow> string \<Rightarrow> string" where
  "generation_prompt ps rephrased_query table_name schema =
     replace_str ''{{ schema }}'' schema
       (replace_str ''{{ table_name }}'' table_name (query_generation_prompt ps))
     @ [CHR 10, CHR 10] @ ''Question: '' @ rephrased_query"

definition generate_sql ::
  "'w gateways \<Rightarrow> string \<Rightarrow> string \<Rightarrow> string \<Rightarrow> 'w \<Rightarrow> (exn + string) \<times> 'w \<times> event list" where
  "generate_sql gw rephrased_query table_name schema w =
     (let prompt = generation_prompt (prompts gw) rephrased_query table_name schema in
      case chat gw False [(''user'', prompt)] w of
        (Inl e, w') \<Rightarrow> (Inl e, w', [Event Generate prompt (Inl e)])
      | (Inr content, w') \<Rightarrow> (Inr (strip content), w', [Event Generate prompt (Inr content)]))"

definition retry_failed_query ::
  "'w gateways \<Rightarrow> string \<Rightarrow> string \<Rightarrow> string \<Rightarrow> string \<Rightarrow> string \<Rightarrow> 'w
     \<Rightarrow> (exn + string) \<times> 'w \<times> event list" where
  "retry_failed_query gw error_message original_query table_name schema rephrased_query w =
     (let prompt =
            replace_str ''{{ rephrased_query }}'' rephrased_query
              (replace_str ''{{ schema }}'' schema
                (replace_str ''{{ table_name }}'' table_name
                  (replace_str ''{{ original_query }}'' original_query
                    (replace_str ''{{ error_message }}'' error_message
                      (retry_query_prompt (prompts gw)))))) in
      case chat gw False [(''user'', prompt)] w of
        (Inl e, w') \<Rightarrow> (Inl e, w', [Event Repair prompt (Inl e)])
      | (Inr content, w') \<Rightarrow> (Inr (strip content), w', [Event Repair prompt (Inr content)]))"

text \<open>
  The loop over \<open>tool_result.content\<close> in \<open>execute_query\<close>: the first item with a \<open>text\<close>
  attribute, or that is a \<open>dict\<close> with the key \<open>text\<close>, is returned.
\<close>

fun first_text :: "content_item list \<Rightarrow> string option" where
  "first_text [] = None"
| "first_text (TextContent t # items) = Some t"
| "first_text (DictContent d # items) = (case d ''text'' of Some t \<Rightarrow> Some t | None \<Rightarrow> first_text items)"
| "first_text (OtherContent # items) = first_text items"

definition execute_query ::
  "'w gateways \<Rightarrow> string \<Rightarrow> string \<Rightarrow> 'w \<Rightarrow> (exn + string) \<times> 'w \<times> event list" where
  "execute_query gw sql_query table_name w =
     (case call_tool gw ''execute_custom_query'' [(''query'', sql_query), (''table_name'', table_name)] w of
        (Inl e, w') \<Rightarrow> (Inl e, w', [Event Execute sql_query (Inl e)])
      | (Inr content, w') \<Rightarrow>
          (let text = (case first_text content of
                         Some t \<Rightarrow> t
                       | None \<Rightarrow> ''Query executed, but couldn't parse the result: '' @ repr_result gw content) in
           (Inr text, w', [Event Execute sql_query (Inr text)])))"

definition summarize_results ::
  "'w gateways \<Rightarrow> string \<Rightarrow> string \<Rightarrow> 'w \<Rightarrow> (exn + string) \<times> 'w \<times> event list" where
  "summarize_results gw user_query sql_output w =
     (let prompt =
            replace_str ''{{ sql_output }}'' sql_output
              (replace_str ''{{ user_query }}'' user_query (summarization_prompt (prompts gw))) in
      case chat gw False [(''user'', prompt)] w of
        (Inl e, w') \<Rightarrow> (Inl e, w', [Event Summarize prompt (Inl e)])
      | (Inr content, w') \<Rightarrow> (Inr (strip content), w', [Event Summarize prompt (Inr content)]))"

section \<open>\<open>process_query_for_selected_table\<close>\<close>

definition sentinel :: string where
  "sentinel = ''Error executing custom query:''"

text \<open>\<open>result.split("Error executing custom query:")[1].strip()\<close>.\<close>

definition error_message_of :: "string \<Rightarrow> exn + string" where
  "error_message_of result =
     (case getitem ''list'' (split_str sentinel result) 1 of
        Inl e \<Rightarrow> Inl e
      | Inr piece \<Rightarrow> Inr (strip piece))"

text \<open>
  What the loop reads and never assigns: \<open>user_query\<close>, \<open>rephrased_query\<close>,
  \<open>self.selected_table\<close>, \<open>self.table_schema\<close> and \<open>sql_query\<close> (\<open>original_query\<close> is the
  same value).
\<close>

record query_context =
  user_query :: string
  rephrased_query :: string
  table :: string
  schema :: string
  sql_query :: string

text \<open>The four full envelopes the loop returns.\<close>

definition failed_envelope :: "query_context \<Rightarrow> string list \<Rightarrow> string \<Rightarrow> envelope" where
  "failed_envelope c error_messages current_query =
     [(''user_query'', Str (user_query c)),
      (''rephrased_query'', Str (rephrased_query c)),
      (''selected_table'', Str (table c)),
      (''original_sql_query'', Str (sql_query c)),
      (''error_messages'', StrList error_messages),
      (''final_sql_query'', Str current_query),
      (''result'', Str ''All query correction attempts failed. Please try rephrasing your question.'')]"

definition corrected_envelope ::
  "query_context \<Rightarrow> string list \<Rightarrow> string \<Rightarrow> string \<Rightarrow> string \<Rightarrow> envelope" where
  "corrected_envelope c error_messages current_query result summary =
     [(''user_query'', Str (user_query c)),
      (''rephrased_query'', Str (rephrased_query c)),
      (''selected_table'', Str (table c)),
      (''original_sql_query'', Str (sql_query c)),
      (''error_messages'', StrList error_messages),
      (''final_sql_query'', Str current_query),
      (''result'', Str result),
      (''summary'', Str summary)]"

definition first_try_envelope :: "query_context \<Rightarrow> string \<Rightarrow> string \<Rightarrow> envelope" where
  "first_try_envelope c result summary =
     [(''user_query'', Str (user_query c)),
      (''rephrased_query'', Str (rephrased_query c)),
      (''selected_table'', Str (table c)),
      (''sql_query'', Str (sql_query c)),
      (''result'', Str result),
      (''summary'', Str summary)]"

text \<open>
  The \<open>while retry_count < max_retries\<close> loop, from the state of its variables
  \<open>current_query\<close>, \<open>retry_count\<close> and \<open>error_messages\<close>. Falling out of the loop, the method
  ends without a \<open>return\<close>: its value is \<open>None\<close>.
\<close>

function retry_loop ::
  "'w gateways \<Rightarrow> query_context \<Rightarrow> int \<Rightarrow> string \<Rightarrow> int \<Rightarrow> string list \<Rightarrow> 'w
     \<Rightarrow> (exn + envelope option) \<times> 'w \<times> event list" where
  "retry_loop gw c max_retries current_query retry_count error_messages w =
     (if retry_count < max_retries then
        (case execute_query gw current_query (table c) w of
           (Inl e, w1, t1) \<Rightarrow> (Inl e, w1, t1)
         | (Inr result, w1, t1) \<Rightarrow>
             if contains sentinel result then
               (case error_message_of result of
                  Inl e \<Rightarrow> (Inl e, w1, t1)
                | Inr error_message \<Rightarrow>
                    (case retry_failed_query gw error_message current_query (table c) (schema c)
                            (rephrased_query c) w1 of
                       (Inl e, w2, t2) \<Rightarrow> (Inl e, w2, t1 @ t2)
                     | (Inr corrected_sql, w2, t2) \<Rightarrow>
                         if retry_count + 1 = max_retries then
                           (case execute_query gw corrected_sql (table c) w2 of
                              (Inl e, w3, t3) \<Rightarrow> (Inl e, w3, t1 @ t2 @ t3)
                            | (Inr final_result, w3, t3) \<Rightarrow>
                                if contains sentinel final_result then
                                  (Inr (Some (failed_envelope c (error_messages @ [error_message])
                                                corrected_sql)),
                                   w3, t1 @ t2 @ t3)
                                else
                                  (case summarize_results gw (user_query c) final_result w3 of
                                     (Inl e, w4, t4) \<Rightarrow> (Inl e, w4, t1 @ t2 @ t3 @ t4)
                                   | (Inr summary, w4, t4) \<Rightarrow>
                                       (Inr (Some (corrected_envelope c
                                                     (error_messages @ [error_message])
                                                     corrected_sql final_result summary)),
                                        w4, t1 @ t2 @ t3 @ t4)))
                         else
                           (case retry_loop gw c max_retries corrected_sql (retry_count + 1)
                                   (error_messages @ [error_message]) w2 of
                              (r, w', t') \<Rightarrow> (r, w', t1 @ t2 @ t'))))
             else
               (case summarize_results gw (user_query c) result w1 of
                  (Inl e, w2, t2) \<Rightarrow> (Inl e, w2, t1 @ t2)
                | (Inr summary, w2, t2) \<Rightarrow>
                    if retry_count = 0 then
                      (Inr (Some (first_try_envelope c result summary)), w2, t1 @ t2)
                    else
                      (Inr (Some (corrected_envelope c error_messages current_query result summary)),
                       w2, t1 @ t2)))
      else (Inr None, w, []))"
  by pat_completeness auto
termination
  by (relation "measure (\<lambda>(gw, c, max_retries, current_query, retry_count, error_messages, w).
                  nat (max_retries - retry_count))") auto

text \<open>The body of the \<open>try\<close> block.\<close>

definition process_body ::
  "'w gateways \<Rightarrow> client \<Rightarrow> string \<Rightarrow> int \<Rightarrow> 'w \<Rightarrow> (exn + envelope option) \<times> 'w \<times> event list" where
  "process_body gw self uq max_retries w =
     (case (selected_table self, table_schema self) of
        (Some tbl, Some sch) \<Rightarrow>
          (case rephrase_query gw uq w of
             (Inl e, w1, t1) \<Rightarrow> (Inl e, w1, t1)
           | (Inr rephrased, w1, t1) \<Rightarrow>
               (case generate_sql gw rephrased tbl sch w1 of
                  (Inl e, w2, t2) \<Rightarrow> (Inl e, w2, t1 @ t2)
                | (Inr sql, w2, t2) \<Rightarrow>
                    (case retry_loop gw
                            \<lparr>user_query = uq, rephrased_query = rephrased, table = tbl,
                             schema = sch, sql_query = sql\<rparr>
                            max_retries sql 0 [] w2 of
                       (r, w3, t3) \<Rightarrow> (r, w3, t1 @ t2 @ t3))))
      | _ \<Rightarrow> (Inr (Some [(''error'', Str ''No table has been selected for this session'')]), w, []))"

text \<open>
  The method: the \<open>try\<close> block, and the handler \<open>except Exception as e\<close> that returns
  \<open>{"user_query": user_query, "error": str(e)}\<close>.
\<close>

definition error_envelope :: "string \<Rightarrow> exn \<Rightarrow> envelope" where
  "error_envelope uq e = [(''user_query'', Str uq), (''error'', Str (str_exn e))]"

definition process_query_for_selected_table ::
  "'w gateways \<Rightarrow> client \<Rightarrow> string \<Rightarrow> int \<Rightarrow> 'w \<Rightarrow> (exn + envelope option) \<times> 'w \<times> event list" where
  "process_query_for_selected_table gw self uq max_retries w =
     (case process_body gw self uq max_retries w of
        (Inl e, w', tr) \<Rightarrow> (Inr (Some (error_envelope uq e)), w', tr)
      | (Inr r, w', tr) \<Rightarrow> (Inr r, w', tr))"

section \<open>Table selection: \<open>get_table_schema\<close> and \<open>select_table\<close>\<close>

text \<open>
  The loop over \<open>tool_result.content\<close> in \<open>get_table_schema\<close>: the first item with a \<open>text\<close>
  attribute, else \<open>None\<close>.
\<close>

fun first_attr_text :: "content_item list \<Rightarrow> string option" where
  "first_attr_text [] = None"
| "first_attr_text (TextContent t # items) = Some t"
| "first_attr_text (DictContent d # items) = first_attr_text items"
| "first_attr_text (OtherContent # items) = first_attr_text items"

definition get_table_schema ::
  "'w gateways \<Rightarrow> string \<Rightarrow> 'w \<Rightarrow> (exn + string option) \<times> 'w" where
  "get_table_schema gw table_name w =
     (case call_tool gw ''get_table_schema'' [(''table_name'', table_name)] w of
        (Inl e, w') \<Rightarrow> (Inl e, w')
      | (Inr content, w') \<Rightarrow> (Inr (first_attr_text content), w'))"

text \<open>
  \<open>select_table\<close> of \<open>api/main.py\<close>, on the module's \<open>client\<close>. \<open>not table_schema\<close> holds of
  \<open>None\<close> and of the empty string. The \<open>raise\<close> of the 404 stands inside the \<open>try\<close> block, so
  the handler below it catches it like any other exception.
\<close>

definition schema_not_found :: "string \<Rightarrow> exn" where
  "schema_not_found table_name =
     HTTPException 404 (''Schema for table '' @ [CHR 39] @ table_name @ [CHR 39] @ '' not found.'')"

definition select_table ::
  "'w gateways \<Rightarrow> client \<Rightarrow> string \<Rightarrow> 'w \<Rightarrow> (exn + envelope) \<times> client \<times> 'w" where
  "select_table gw self table_name w =
     (case
        (case get_table_schema gw table_name w of
           (Inl e, w') \<Rightarrow> (Inl e, self, w')
         | (Inr None, w') \<Rightarrow> (Inl (schema_not_found table_name), self, w')
         | (Inr (Some fetched), w') \<Rightarrow>
             if fetched = [] then (Inl (schema_not_found table_name), self, w')
             else
               (Inr [(''message'', Str (''Table '' @ [CHR 39] @ table_name @ [CHR 39]
                                         @ '' selected successfully.'')),
                     (''schema'', Str fetched)],
                self\<lparr>selected_table := Some table_name, table_schema := Some fetched\<rparr>, w'))
      of
        (Inl e, self', w') \<Rightarrow>
          (Inl (HTTPException 500 (''Error selecting table: '' @ str_exn e)), self', w')
      | (Inr response, self', w') \<Rightarrow> (Inr response, self', w'))"

section \<open>The server: \<open>call_tool\<close> of \<open>api/clickhouse_server.py\<close>\<close>

text \<open>
  \<open>client.query(query)\<close> of the database driver gives the column names and the rows (each
  a tuple of cells, a cell read as its text), or raises. \<open>dumps\<close> is
  \<open>json.dumps(obj, indent=2)\<close> on the nested \<open>dict\<close>s and lists the server builds.
\<close>

record query_result =
  column_names :: "string list"
  result_set :: "string list list"

datatype json = JString string | JArray "json list" | JObject "(string \<times> json) list"

record 'd backend =
  query :: "string \<Rightarrow> 'd \<Rightarrow> (exn + query_result) \<times> 'd"
  dumps :: "json \<Rightarrow> exn + string"

text \<open>
  The loop that fills \<open>schema_json[table_name]["row_data"]\<close>: an assignment to a key that
  is there already replaces its value.
\<close>

fun row_data_of :: "string list list \<Rightarrow> (string \<times> json) list \<Rightarrow> exn + (string \<times> json) list" where
  "row_data_of [] row_data = Inr row_data"
| "row_data_of (row # rows) row_data =
     (case getitem ''tuple'' row 0 of
        Inl e \<Rightarrow> Inl e
      | Inr column_name \<Rightarrow>
          (case getitem ''tuple'' row 1 of
             Inl e \<Rightarrow> Inl e
           | Inr data_type \<Rightarrow>
               row_data_of rows
                 (AList.update column_name (JObject [(''type'', JString data_type)]) row_data)))"

definition schema_error :: "string \<Rightarrow> exn \<Rightarrow> content_item list" where
  "schema_error table_name e =
     [TextContent (''Error retrieving schema for table '' @ table_name @ '': '' @ str_exn e)]"

definition get_table_schema_tool :: "'d backend \<Rightarrow> string \<Rightarrow> 'd \<Rightarrow> content_item list \<times> 'd" where
  "get_table_schema_tool be table_name d =
     (case query be (''DESCRIBE TABLE '' @ table_name) d of
        (Inl e, d') \<Rightarrow> (schema_error table_name e, d')
      | (Inr result, d') \<Rightarrow>
          if result_set result = [] then
            ([TextContent (''Table '' @ table_name @ '' not found or has no columns.'')], d')
          else
            (case row_data_of (result_set result) [] of
               Inl e \<Rightarrow> (schema_error table_name e, d')
             | Inr row_data \<Rightarrow>
                 (case dumps be (JObject [(table_name, JObject [(''row_data'', JObject row_data)])]) of
                    Inl e \<Rightarrow> (schema_error table_name e, d')
                  | Inr formatted_json \<Rightarrow> ([TextContent formatted_json], d'))))"

text \<open>\<open>dict(zip(result.column_names, row))\<close>.\<close>

definition dict_zip :: "string list \<Rightarrow> string list \<Rightarrow> (string \<times> json) list" where
  "dict_zip names row = fold (\<lambda>(k, v). AList.update k (JString v)) (zip names row) []"

definition execute_error :: "exn \<Rightarrow> content_item list" where
  "execute_error e = [TextContent (''Error executing custom query: '' @ str_exn e)]"

definition execute_custom_query_tool :: "'d backend \<Rightarrow> string \<Rightarrow> 'd \<Rightarrow> content_item list \<times> 'd" where
  "execute_custom_query_tool be q d =
     (case query be q d of
        (Inl e, d') \<Rightarrow> (execute_error e, d')
      | (Inr result, d') \<Rightarrow>
          if result_set result = [] then
            ([TextContent ''Query executed successfully, but returned no data.''], d')
          else
            (case dumps be
                    (JObject
                      [(''columns'',
                        JArray (map (\<lambda>col. JObject [(''name'', JString col), (''type'', JString ''unknown'')])
                                 (column_names result))),
                       (''rows'',
                        JArray (map (\<lambda>row. JObject (dict_zip (column_names result) row))
                                 (result_set result)))]) of
               Inl e \<Rightarrow> (execute_error e, d')
             | Inr formatted_json \<Rightarrow>
                 ([TextContent (''Query executed successfully:'' @ [CHR 10, CHR 10] @ formatted_json)],
                  d')))"

definition server_call_tool ::
  "'d backend \<Rightarrow> string \<Rightarrow> (string \<times> string) list \<Rightarrow> 'd \<Rightarrow> (exn + content_item list) \<times> 'd" where
  "server_call_tool be name arguments d =
     (if name = ''get_table_schema'' then
        (case map_of arguments ''table_name'' of
           None \<Rightarrow> (Inl (KeyError ''table_name''), d)
         | Some table_name \<Rightarrow>
             (case get_table_schema_tool be table_name d of (content, d') \<Rightarrow> (Inr content, d')))
      else if name = ''execute_custom_query'' then
        (case map_of arguments ''query'' of
           None \<Rightarrow> (Inl (KeyError ''query''), d)
         | Some q \<Rightarrow>
             (case execute_custom_query_tool be q d of (content, d') \<Rightarrow> (Inr content, d')))
      else (Inl (ValueError (''Tool not found: '' @ name)), d))"

section \<open>Reading a run\<close>

text \<open>The calls of one kind in a trace.\<close>

definition calls :: "kind \<Rightarrow> event list \<Rightarrow> event list" where
  "calls k tr = filter (\<lambda>e. kind e = k) tr"

text \<open>What a method returns of a chat completion: the content, stripped.\<close>

fun stripped :: "exn + string \<Rightarrow> exn + string" where
  "stripped (Inl e) = Inl e"
| "stripped (Inr content) = Inr (strip content)"

text \<open>A run gives what the method returned, the outside world after it, and the calls made.\<close>

definition returned :: "'a \<times> 'w \<times> event list \<Rightarrow> 'a" where
  "returned run = fst run"

definition trace :: "'a \<times> 'w \<times> event list \<Rightarrow> event list" where
  "trace run = snd (snd run)"

text \<open>An execution call that returned a text holding the sentinel.\<close>

definition failed_execution :: "event \<Rightarrow> bool" where
  "failed_execution e =
     (kind e = Execute \<and> (case outcome e of Inl x \<Rightarrow> False | Inr res \<Rightarrow> contains sentinel res))"

text \<open>An execution call that returned a text without it.\<close>

definition successful_execution :: "event \<Rightarrow> bool" where
  "successful_execution e =
     (kind e = Execute \<and> (case outcome e of Inl x \<Rightarrow> False | Inr res \<Rightarrow> \<not> contains sentinel res))"

text \<open>A summarization call that returned.\<close>

definition summarized :: "event \<Rightarrow> bool" where
  "summarized e = (kind e = Summarize \<and> (case outcome e of Inl x \<Rightarrow> False | Inr s \<Rightarrow> True))"

text \<open>The keys of a returned \<open>dict\<close>, in order.\<close>

definition keys :: "envelope \<Rightarrow> string list" where
  "keys e = map fst e"

text \<open>
  A full envelope: it carries the user's query and has the keys of one of the three
  \<open>dict\<close>s the loop returns (first try, corrected, all attempts failed).
\<close>

definition full_envelope :: "string \<Rightarrow> envelope \<Rightarrow> bool" where
  "full_envelope uq e =
     (map_of e ''user_query'' = Some (Str uq)
      \<and> (keys e = [''user_query'', ''rephrased_query'', ''selected_table'', ''sql_query'',
                    ''result'', ''summary'']
         \<or> keys e = [''user_query'', ''rephrased_query'', ''selected_table'', ''original_sql_query'',
                       ''error_messages'', ''final_sql_query'', ''result'', ''summary'']
         \<or> keys e = [''user_query'', ''rephrased_query'', ''selected_table'', ''original_sql_query'',
                       ''error_messages'', ''final_sql_query'', ''result'']))"

definition no_table_selected :: envelope where
  "no_table_selected = [(''error'', Str ''No table has been selected for this session'')]"

definition all_attempts_failed :: string where
  "all_attempts_failed = ''All query correction attempts failed. Please try rephrasing your question.''"

text \<open>
  The run began with a classification call whose content \<open>json.loads\<close> decoded to
  \<open>verdict\<close>.
\<close>

definition classified :: "'w gateways \<Rightarrow> event list \<Rightarrow> (string \<rightharpoonup> jval) \<Rightarrow> bool" where
  "classified gw tr verdict =
     (case tr of
        Event Classify p (Inr content) # rest \<Rightarrow> loads gw content = Inr verdict
      | _ \<Rightarrow> False)"

text \<open>Every event of a trace, with the event after it (\<open>None\<close> at the end), satisfies \<open>P\<close>.\<close>

fun each_with_next :: "(event \<Rightarrow> event option \<Rightarrow> bool) \<Rightarrow> event list \<Rightarrow> bool" where
  "each_with_next P [] = True"
| "each_with_next P [e] = P e None"
| "each_with_next P (e # e' # es) = (P e (Some e') \<and> each_with_next P (e' # es))"

text \<open>
  How the loop goes on after a call: after an execution that returned a text with the
  sentinel, a repair call or nothing more; after one that returned a text without it,
  the summarization call; and a repair call after nothing else.
\<close>

fun goes_on :: "event \<Rightarrow> event option \<Rightarrow> bool" where
  "goes_on (Event Execute q (Inr res)) None = contains sentinel res"
| "goes_on (Event Execute q (Inr res)) (Some e') =
     (if contains sentinel res then kind e' = Repair else kind e' = Summarize)"
| "goes_on e None = True"
| "goes_on e (Some e') = (kind e' \<noteq> Repair)"

section \<open>Test doubles\<close>

text \<open>
  A gateway stub over a counter of the tool calls made so far. Its templates tell the
  chat stub which method is calling: classification gets \<open>{}\<close> (decoded to \<open>verdict\<close>),
  generation gets \<open>generated\<close>, summarization gets \<open>summary\<close>, repair gets new SQL text;
  the \<open>n\<close>-th tool call answers with the text \<open>tool_text n\<close>.
\<close>

definition stub_prompts :: prompt_templates where
  "stub_prompts =
     \<lparr>rephrase_user_query = ''classify {{ user_query }}'',
      query_generation_prompt = ''generate for {{ table_name }}'',
      retry_query_prompt = ''repair {{ original_query }}'',
      summarization_prompt = ''summarize {{ sql_output }}''\<rparr>"

definition stub_chat ::
  "(exn + string) \<Rightarrow> (exn + string) \<Rightarrow> bool \<Rightarrow> (string \<times> string) list \<Rightarrow> nat \<Rightarrow> (exn + string) \<times> nat" where
  "stub_chat generated summary json msgs n =
     (if json then (Inr ''{}'', n)
      else (case msgs of
              [(role, p)] \<Rightarrow>
                if prefix ''summarize'' p then (summary, n)
                else if prefix ''generate'' p then (generated, n)
                else (Inr '' SELECT 2 '', n)
            | _ \<Rightarrow> (Inl (Raised ''bad request''), n)))"

definition stub ::
  "(string \<rightharpoonup> jval) \<Rightarrow> (exn + string) \<Rightarrow> (exn + string) \<Rightarrow> (nat \<Rightarrow> string) \<Rightarrow> nat gateways" where
  "stub verdict generated summary tool_text =
     \<lparr>prompts = stub_prompts,
      chat = stub_chat generated summary,
      loads = (\<lambda>content. Inr verdict),
      call_tool = (\<lambda>name arguments n. (Inr [TextContent (tool_text n)], Suc n)),
      repr_result = (\<lambda>content. ''[]'')\<rparr>"

definition valid_verdict :: "string \<rightharpoonup> jval" where
  "valid_verdict = [''query_type'' \<mapsto> JStr ''valid'', ''queries'' \<mapsto> JList [''total revenue'']]"

definition wrong_verdict :: "string \<rightharpoonup> jval" where
  "wrong_verdict = [''query_type'' \<mapsto> JStr ''wrong'', ''queries'' \<mapsto> JList []]"

definition bare_verdict :: "string \<rightharpoonup> jval" where
  "bare_verdict = [''query_type'' \<mapsto> JStr ''valid'', ''queries'' \<mapsto> JList []]"

definition orders :: client where
  "orders = \<lparr>selected_table = Some ''orders'', table_schema = Some ''{id: Int, total: Float}''\<rparr>"

definition fresh :: client where
  "fresh = \<lparr>selected_table = None, table_schema = None\<rparr>"

definition no_data :: string where
  "no_data = ''Query executed successfully, but returned no data.''"

text \<open>A successful answer of the server whose row data holds the sentinel phrase.\<close>

definition rows_with_sentinel :: string where
  "rows_with_sentinel =
     ''Query executed successfully:'' @ [CHR 10, CHR 10]
     @ ''{rows: [{message: Error executing custom query: timeout}]}''"

definition broken :: string where
  "broken = ''Error executing custom query: no such column''"

text \<open>
  The client connected to the server of this repository: the MCP library runs the
  server's \<open>call_tool\<close> handler and hands its content list to the client; an exception the
  handler raises comes back as an error result whose text is \<open>str(e)\<close>.
\<close>

definition mcp_round_trip ::
  "'d backend \<Rightarrow> string \<Rightarrow> (string \<times> string) list \<Rightarrow> 'd \<Rightarrow> (exn + content_item list) \<times> 'd" where
  "mcp_round_trip be name arguments d =
     (case server_call_tool be name arguments d of
        (Inl e, d') \<Rightarrow> (Inr [TextContent (str_exn e)], d')
      | (Inr content, d') \<Rightarrow> (Inr content, d'))"

definition connected :: "'d gateways \<Rightarrow> 'd backend \<Rightarrow> 'd gateways" where
  "connected gw be = gw\<lparr>call_tool := mcp_round_trip be\<rparr>"

text \<open>A database with no table at all: \<open>DESCRIBE TABLE\<close> gives no row.\<close>

definition empty_database :: "nat backend" where
  "empty_database =
     \<lparr>query = (\<lambda>q n. (Inr \<lparr>column_names = [], result_set = []\<rparr>, n)),
      dumps = (\<lambda>j. Inr ''{}'')\<rparr>"

text \<open>A database whose driver raises on \<open>DESCRIBE TABLE\<close> of a table that does not exist.\<close>

definition unknown_table_database :: "nat backend" where
  "unknown_table_database =
     \<lparr>query = (\<lambda>q n. (Inl (Raised ''Code: 60. Unknown table''), n)),
      dumps = (\<lambda>j. Inr ''{}'')\<rparr>"

section \<open>Properties\<close>

declare retry_loop.simps [simp del]

subsection \<open>The sentinel test and the error message\<close>

text \<open>\<open>contains\<close> is the substring relation.\<close>

lemma contains_iff: "contains sub s \<longleftrightarrow> (\<exists>pre post. s = pre @ sub @ post)"
proof (induction s)
  case Nil
  show ?case by auto
next
  case (Cons c cs)
  show ?case
  proof
    assume "contains sub (c # cs)"
    then consider "prefix sub (c # cs)" | "contains sub cs" by auto
    then show "\<exists>pre post. c # cs = pre @ sub @ post"
    proof cases
      case 1
      then obtain post where "c # cs = sub @ post" by (auto simp: prefix_def)
      then have "c # cs = [] @ sub @ post" by simp
      then show ?thesis by blast
    next
      case 2
      with Cons.IH obtain pre post where "cs = pre @ sub @ post" by blast
      then have "c # cs = (c # pre) @ sub @ post" by simp
      then show ?thesis by blast
    qed
  next
    assume "\<exists>pre post. c # cs = pre @ sub @ post"
    then obtain pre post where eq: "c # cs = pre @ sub @ post" by blast
    show "contains sub (c # cs)"
    proof (cases pre)
      case Nil
      with eq have "prefix sub (c # cs)" by (simp add: prefix_def)
      then show ?thesis by simp
    next
      case (Cons a pre')
      with eq have "cs = pre' @ sub @ post" by simp
      with Cons.IH have "contains sub cs" by blast
      then show ?thesis by simp
    qed
  qed
qed

text \<open>
  A text that holds the sentinel splits into at least two pieces, so the subscript \<open>[1]\<close>
  of the loop never raises.
\<close>

lemma split_aux_not_Nil: "split_aux sep k acc s \<noteq> []"
  by (induction sep k acc s rule: split_aux.induct) auto

lemma split_aux_two: "contains sep s \<Longrightarrow> sep \<noteq> [] \<Longrightarrow> 2 \<le> length (split_aux sep 0 acc s)"
proof (induction s arbitrary: acc)
  case Nil
  then show ?case by simp
next
  case (Cons c cs)
  show ?case
  proof (cases "prefix sep (c # cs)")
    case True
    have "split_aux sep (length sep - 1) [] cs \<noteq> []" by (rule split_aux_not_Nil)
    then have "1 \<le> length (split_aux sep (length sep - 1) [] cs)"
      by (cases "split_aux sep (length sep - 1) [] cs") auto
    with True show ?thesis by simp
  next
    case False
    with Cons.prems have "contains sep cs" by simp
    from Cons.IH[OF this Cons.prems(2)] False show ?thesis by simp
  qed
qed

lemma error_message_of_defined:
  "contains sentinel res \<Longrightarrow> \<exists>msg. error_message_of res = Inr msg"
proof -
  assume "contains sentinel res"
  moreover have "sentinel \<noteq> []" by (simp add: sentinel_def)
  ultimately have "2 \<le> length (split_str sentinel res)"
    unfolding split_str_def by (rule split_aux_two)
  then show ?thesis by (simp add: error_message_of_def getitem_def)
qed

subsection \<open>What each method records and returns\<close>

lemma execute_query_trace:
  "execute_query gw q t w = (r, w', tr) \<Longrightarrow> tr = [Event Execute q r]"
  by (auto simp: execute_query_def Let_def split: prod.splits sum.splits)

lemma retry_failed_query_trace:
  "retry_failed_query gw m q t s rq w = (r, w', tr) \<Longrightarrow>
     \<exists>p out. tr = [Event Repair p out] \<and> r = stripped out"
  by (auto simp: retry_failed_query_def Let_def split: prod.splits sum.splits)

lemma summarize_results_trace:
  "summarize_results gw uq out w = (r, w', tr) \<Longrightarrow>
     \<exists>p out. tr = [Event Summarize p out] \<and> r = stripped out"
  by (auto simp: summarize_results_def Let_def split: prod.splits sum.splits)

lemma generate_sql_trace:
  "generate_sql gw rq t s w = (r, w', tr) \<Longrightarrow>
     \<exists>p out. tr = [Event Generate p out] \<and> r = stripped out"
  by (auto simp: generate_sql_def Let_def split: prod.splits sum.splits)

lemma rephrase_query_trace:
  "rephrase_query gw uq w = (r, w', tr) \<Longrightarrow> \<exists>p out. tr = [Event Classify p out]"
  by (auto simp: rephrase_query_def Let_def split: prod.splits sum.splits if_splits)

subsection \<open>One turn of the loop, and the body of the method, case by case\<close>

lemma retry_loop_cases:
  assumes run: "retry_loop gw c m q rc errs w = (r, w', tr)" and lt: "rc < m"
  obtains
    (exec_raises) e where "tr = [Event Execute q (Inl e)]" "r = Inl e"
  | (succeeded) res p out where "\<not> contains sentinel res"
      "tr = [Event Execute q (Inr res), Event Summarize p out]"
      "r = (case out of Inl e \<Rightarrow> Inl e
            | Inr s \<Rightarrow> Inr (Some (if rc = 0 then first_try_envelope c res (strip s)
                                  else corrected_envelope c errs q res (strip s))))"
  | (repair_raises) res msg p e where "contains sentinel res" "error_message_of res = Inr msg"
      "tr = [Event Execute q (Inr res), Event Repair p (Inl e)]" "r = Inl e"
  | (final_raises) res msg p sql e where "rc + 1 = m" "contains sentinel res"
      "error_message_of res = Inr msg"
      "tr = [Event Execute q (Inr res), Event Repair p (Inr sql), Event Execute (strip sql) (Inl e)]"
      "r = Inl e"
  | (final_failed) res msg p sql res2 where "rc + 1 = m" "contains sentinel res"
      "error_message_of res = Inr msg" "contains sentinel res2"
      "tr = [Event Execute q (Inr res), Event Repair p (Inr sql), Event Execute (strip sql) (Inr res2)]"
      "r = Inr (Some (failed_envelope c (errs @ [msg]) (strip sql)))"
  | (final_succeeded) res msg p sql res2 p2 out where "rc + 1 = m" "contains sentinel res"
      "error_message_of res = Inr msg" "\<not> contains sentinel res2"
      "tr = [Event Execute q (Inr res), Event Repair p (Inr sql), Event Execute (strip sql) (Inr res2),
             Event Summarize p2 out]"
      "r = (case out of Inl e \<Rightarrow> Inl e
            | Inr s \<Rightarrow> Inr (Some (corrected_envelope c (errs @ [msg]) (strip sql) res2 (strip s))))"
  | (again) res msg p sql w2 t' where "rc + 1 < m" "contains sentinel res"
      "error_message_of res = Inr msg"
      "tr = Event Execute q (Inr res) # Event Repair p (Inr sql) # t'"
      "retry_loop gw c m (strip sql) (rc + 1) (errs @ [msg]) w2 = (r, w', t')"
proof -
  obtain r1 w1 t1 where ex: "execute_query gw q (table c) w = (r1, w1, t1)"
    by (metis prod_cases3)
  have t1: "t1 = [Event Execute q r1]" using ex by (rule execute_query_trace)
  show thesis
  proof (cases r1)
    case (Inl e)
    with run lt ex t1 exec_raises show thesis
      by (auto simp: retry_loop.simps)
  next
    case (Inr res)
    show thesis
    proof (cases "contains sentinel res")
      case False
      obtain r2 w2 t2 where su: "summarize_results gw (user_query c) res w1 = (r2, w2, t2)"
        by (metis prod_cases3)
      from summarize_results_trace[OF su] obtain p out where
        t2: "t2 = [Event Summarize p out]" and r2: "r2 = stripped out" by blast
      show thesis
        using run lt ex t1 Inr False su t2 r2
        by (cases out) (auto simp: retry_loop.simps split: if_splits intro!: succeeded[of res p out])
    next
      case True
      show thesis
      proof (cases "error_message_of res")
        case (Inl e)
        with error_message_of_defined[OF True] show thesis by simp
      next
        case msg: (Inr msg)
        obtain r2 w2 t2 where
          re: "retry_failed_query gw msg q (table c) (schema c) (rephrased_query c) w1 = (r2, w2, t2)"
          by (metis prod_cases3)
        from retry_failed_query_trace[OF re] obtain p out where
          t2: "t2 = [Event Repair p out]" and r2: "r2 = stripped out" by blast
        show thesis
        proof (cases out)
          case (Inl e)
          with run lt ex t1 Inr True msg re t2 r2 repair_raises[of res msg p e] show thesis
            by (auto simp: retry_loop.simps)
        next
          case sql: (Inr sql)
          show thesis
          proof (cases "rc + 1 = m")
            case False
            obtain r3 w3 t3 where
              rec: "retry_loop gw c m (strip sql) (rc + 1) (errs @ [msg]) w2 = (r3, w3, t3)"
              by (metis prod_cases3)
            from False lt have "rc + 1 < m" by simp
            with run lt ex t1 Inr True msg re t2 r2 sql False rec
              again[of res msg p sql t3 w2] show thesis
              by (auto simp: retry_loop.simps)
          next
            case last: True
            obtain r3 w3 t3 where ex2: "execute_query gw (strip sql) (table c) w2 = (r3, w3, t3)"
              by (metis prod_cases3)
            have t3: "t3 = [Event Execute (strip sql) r3]" using ex2 by (rule execute_query_trace)
            show thesis
            proof (cases r3)
              case (Inl e)
              with run lt ex t1 Inr True msg re t2 r2 sql last ex2 t3
                final_raises[of res msg p sql e] show thesis
                by (auto simp: retry_loop.simps)
            next
              case res2: (Inr res2)
              show thesis
              proof (cases "contains sentinel res2")
                case True
                with run lt ex t1 Inr \<open>contains sentinel res\<close> msg re t2 r2 sql last ex2 t3 res2
                  final_failed[of res msg res2 p sql] show thesis
                  by (auto simp: retry_loop.simps)
              next
                case False
                obtain r4 w4 t4 where
                  su: "summarize_results gw (user_query c) res2 w3 = (r4, w4, t4)"
                  by (metis prod_cases3)
                from summarize_results_trace[OF su] obtain p2 out2 where
                  t4: "t4 = [Event Summarize p2 out2]" and r4: "r4 = stripped out2" by blast
                show thesis
                  using run lt ex t1 Inr \<open>contains sentinel res\<close> msg re t2 r2 sql last ex2 t3 res2
                    False su t4 r4
                  by (cases out2)
                    (auto simp: retry_loop.simps split: if_splits intro!: final_succeeded[of res msg res2 p sql p2 out2])
              qed
            qed
          qed
        qed
      qed
    qed
  qed
qed


lemma process_body_cases:
  assumes run: "process_body gw self uq max_retries w = (r, w', tr)"
  obtains
    (no_table) "selected_table self = None \<or> table_schema self = None"
      "r = Inr (Some [(''error'', Str ''No table has been selected for this session'')])" "tr = []"
  | (classify_raises) tbl sch e w1 t1 where "selected_table self = Some tbl" "table_schema self = Some sch"
      "rephrase_query gw uq w = (Inl e, w1, t1)" "r = Inl e" "tr = t1"
  | (generate_raises) tbl sch rephrased w1 t1 e where
      "selected_table self = Some tbl" "table_schema self = Some sch"
      "rephrase_query gw uq w = (Inr rephrased, w1, t1)"
      "r = Inl e"
      "tr = t1 @ [Event Generate (generation_prompt (prompts gw) rephrased tbl sch) (Inl e)]"
  | (looped) tbl sch rephrased w1 t1 sql w2 t3 where
      "selected_table self = Some tbl" "table_schema self = Some sch"
      "rephrase_query gw uq w = (Inr rephrased, w1, t1)"
      "retry_loop gw \<lparr>user_query = uq, rephrased_query = rephrased, table = tbl, schema = sch,
                       sql_query = strip sql\<rparr> max_retries (strip sql) 0 [] w2 = (r, w', t3)"
      "tr = t1 @ [Event Generate (generation_prompt (prompts gw) rephrased tbl sch) (Inr sql)] @ t3"
proof (cases "selected_table self")
  case None
  with run have "r = Inr (Some [(''error'', Str ''No table has been selected for this session'')])"
    "tr = []" by (auto simp: process_body_def)
  with None show thesis by (intro no_table) auto
next
  case tbl: (Some tbl)
  show thesis
  proof (cases "table_schema self")
    case None
    with run tbl have "r = Inr (Some [(''error'', Str ''No table has been selected for this session'')])"
      "tr = []" by (auto simp: process_body_def)
    with None show thesis by (intro no_table) auto
  next
    case sch: (Some sch)
    obtain r1 w1 t1 where re: "rephrase_query gw uq w = (r1, w1, t1)" by (metis prod_cases3)
    show thesis
    proof (cases r1)
      case (Inl e)
      with re have re': "rephrase_query gw uq w = (Inl e, w1, t1)" by simp
      with run tbl sch have "r = Inl e" "tr = t1" by (simp_all add: process_body_def)
      with tbl sch re' show thesis by (intro classify_raises)
    next
      case (Inr rephrased)
      with re have re': "rephrase_query gw uq w = (Inr rephrased, w1, t1)" by simp
      let ?p = "generation_prompt (prompts gw) rephrased tbl sch"
      obtain out w2 where ch: "chat gw False [(''user'', ?p)] w1 = (out, w2)" by (metis prod.exhaust)
      show thesis
      proof (cases out)
        case (Inl e)
        with ch have "generate_sql gw rephrased tbl sch w1 = (Inl e, w2, [Event Generate ?p (Inl e)])"
          by (simp add: generate_sql_def)
        with run tbl sch re' have "r = Inl e" "tr = t1 @ [Event Generate ?p (Inl e)]"
          by (simp_all add: process_body_def)
        with tbl sch re' show thesis by (intro generate_raises)
      next
        case sql: (Inr sql)
        with ch have ge: "generate_sql gw rephrased tbl sch w1
            = (Inr (strip sql), w2, [Event Generate ?p (Inr sql)])"
          by (simp add: generate_sql_def)
        obtain r3 w3 t3 where
          lo: "retry_loop gw \<lparr>user_query = uq, rephrased_query = rephrased, table = tbl, schema = sch,
                       sql_query = strip sql\<rparr> max_retries (strip sql) 0 [] w2 = (r3, w3, t3)"
          by (metis prod_cases3)
        with run tbl sch re' ge have "r = r3" "w' = w3"
          "tr = t1 @ [Event Generate ?p (Inr sql)] @ t3"
          by (simp_all add: process_body_def)
        with tbl sch re' lo show thesis by (intro looped) auto
      qed
    qed
  qed
qed

subsection \<open>Bounded retries\<close>

lemma process_trace:
  "trace (process_query_for_selected_table gw self uq max_retries w)
     = trace (process_body gw self uq max_retries w)"
  by (auto simp: process_query_for_selected_table_def trace_def split: prod.splits sum.splits)

lemma retry_loop_calls:
  "retry_loop gw c m q rc errs w = (r, w', tr) \<Longrightarrow> rc < m \<Longrightarrow>
     int (length (calls Execute tr)) \<le> m - rc + 1 \<and> int (length (calls Repair tr)) \<le> m - rc"
proof (induction "nat (m - rc)" arbitrary: q rc errs w tr)
  case 0
  then show ?case by simp
next
  case (Suc n)
  from Suc.prems show ?case
  proof (cases rule: retry_loop_cases)
    case (again res msg p sql w2 t')
    from Suc.hyps(2) again(1) have "n = nat (m - (rc + 1))" by simp
    from Suc.hyps(1)[OF this again(5) again(1)] again(4) show ?thesis
      by (simp add: calls_def)
  qed (use Suc.prems(2) in \<open>auto simp: calls_def\<close>)
qed

lemma process_body_calls:
  assumes run: "process_body gw self uq max_retries w = (r, w', tr)" and "0 \<le> max_retries"
  shows "int (length (calls Execute tr)) \<le> max_retries + 1
       \<and> int (length (calls Repair tr)) \<le> max_retries"
using run
proof (cases rule: process_body_cases)
  case no_table
  with assms(2) show ?thesis by (simp add: calls_def)
next
  case (classify_raises tbl sch e w1 t1)
  from rephrase_query_trace[OF classify_raises(3)] classify_raises(5) assms(2)
  show ?thesis by (auto simp: calls_def)
next
  case (generate_raises tbl sch rephrased w1 t1 e)
  from rephrase_query_trace[OF generate_raises(3)] generate_raises(5) assms(2)
  show ?thesis by (auto simp: calls_def)
next
  case (looped tbl sch rephrased w1 t1 sql w2 t3)
  from rephrase_query_trace[OF looped(3)] obtain p out where t1: "t1 = [Event Classify p out]"
    by blast
  show ?thesis
  proof (cases "0 < max_retries")
    case True
    from retry_loop_calls[OF looped(4) True] t1 looped(5) show ?thesis
      by (simp add: calls_def)
  next
    case False
    with looped(4) have "t3 = []" by (simp add: retry_loop.simps)
    with t1 looped(5) assms(2) show ?thesis by (simp add: calls_def)
  qed
qed

text \<open>
  C1. For every \<open>max_retries \<ge> 0\<close>, every client state, every user query and every
  behaviour of the gateways (any functions of the outside world's state, raising or
  not, so also a reasoning gateway that returns the same broken SQL each time), one
  call of \<open>process_query_for_selected_table\<close> issues at most \<open>max_retries + 1\<close> execution
  calls and at most \<open>max_retries\<close> repair calls. That the call ends is the termination
  proof of \<open>retry_loop\<close>, the only loop of the method: the model is a total function of
  its gateways.
\<close>

theorem calls_bounded_by_max_retries:
  assumes "0 \<le> max_retries"
  shows "int (length (calls Execute
                (trace (process_query_for_selected_table gw self uq max_retries w))))
           \<le> max_retries + 1
       \<and> int (length (calls Repair
                (trace (process_query_for_selected_table gw self uq max_retries w))))
           \<le> max_retries"
proof -
  obtain r w' tr where run: "process_body gw self uq max_retries w = (r, w', tr)"
    by (metis prod_cases3)
  then have "trace (process_body gw self uq max_retries w) = tr" by (simp add: trace_def)
  with process_body_calls[OF run assms] show ?thesis by (simp add: process_trace)
qed

text \<open>
  The bound is reached: with three retries and a reasoning gateway that answers every
  repair with the same SQL, which the execution gateway rejects every time, the run
  makes four execution calls and three repair calls, and ends.
\<close>

lemma always_broken_run:
  "process_query_for_selected_table
     (stub valid_verdict (Inr ''SELECT 1'') (Inr ''ok'') (\<lambda>n. broken)) orders ''q'' 3 0
   = (Inr (Some
        [(''user_query'', Str ''q''),
         (''rephrased_query'', Str ''total revenue''),
         (''selected_table'', Str ''orders''),
         (''original_sql_query'', Str ''SELECT 1''),
         (''error_messages'', StrList [''no such column'', ''no such column'', ''no such column'']),
         (''final_sql_query'', Str ''SELECT 2''),
         (''result'',
          Str ''All query correction attempts failed. Please try rephrasing your question.'')]),
      4,
      [Event Classify ''classify q'' (Inr ''{}''),
       Event Generate (''generate for orders'' @ [CHR 10, CHR 10] @ ''Question: total revenue'')
         (Inr ''SELECT 1''),
       Event Execute ''SELECT 1'' (Inr ''Error executing custom query: no such column''),
       Event Repair ''repair SELECT 1'' (Inr '' SELECT 2 ''),
       Event Execute ''SELECT 2'' (Inr ''Error executing custom query: no such column''),
       Event Repair ''repair SELECT 2'' (Inr '' SELECT 2 ''),
       Event Execute ''SELECT 2'' (Inr ''Error executing custom query: no such column''),
       Event Repair ''repair SELECT 2'' (Inr '' SELECT 2 ''),
       Event Execute ''SELECT 2'' (Inr ''Error executing custom query: no such column'')])"
  by code_simp

theorem calls_bounded_by_max_retries_witness:
  "(0::int) \<le> 3
   \<and> length (calls Execute (trace (process_query_for_selected_table
         (stub valid_verdict (Inr ''SELECT 1'') (Inr ''ok'') (\<lambda>n. broken)) orders ''q'' 3 0))) = 4
   \<and> length (calls Repair (trace (process_query_for_selected_table
         (stub valid_verdict (Inr ''SELECT 1'') (Inr ''ok'') (\<lambda>n. broken)) orders ''q'' 3 0))) = 3
   \<and> int (length (calls Execute (trace (process_query_for_selected_table
         (stub valid_verdict (Inr ''SELECT 1'') (Inr ''ok'') (\<lambda>n. broken)) orders ''q'' 3 0))))
       \<le> 3 + 1
   \<and> int (length (calls Repair (trace (process_query_for_selected_table
         (stub valid_verdict (Inr ''SELECT 1'') (Inr ''ok'') (\<lambda>n. broken)) orders ''q'' 3 0))))
       \<le> 3"
  using calls_bounded_by_max_retries
          [of 3 "stub valid_verdict (Inr ''SELECT 1'') (Inr ''ok'') (\<lambda>n. broken)" orders "''q''" 0]
  by (simp add: always_broken_run trace_def calls_def)

subsection \<open>Classification\<close>

lemma process_run:
  "process_body gw self uq max_retries w = (r, w', tr) \<Longrightarrow>
   process_query_for_selected_table gw self uq max_retries w
     = ((case r of Inl e \<Rightarrow> Inr (Some (error_envelope uq e)) | Inr x \<Rightarrow> Inr x), w', tr)"
  by (simp add: process_query_for_selected_table_def split: sum.splits)

lemma rephrase_query_wrong:
  assumes "rephrase_query gw uq w = (r, w1, t1)" and "classified gw (t1 @ rest) verdict"
    and "verdict ''query_type'' = Some (JStr ''wrong'')"
  shows "r = Inl (ValueError irrelevant_query)"
  using assms
  by (auto simp: rephrase_query_def classified_def subscript_def Let_def
           split: prod.splits sum.splits if_splits option.splits)

lemma rephrase_query_empty:
  assumes "rephrase_query gw uq w = (r, w1, t1)" and "classified gw (t1 @ rest) verdict"
    and "verdict ''query_type'' = Some qt" and "qt \<noteq> JStr ''wrong''"
    and "verdict ''queries'' = Some (JList [])"
  shows "r = Inr uq"
  using assms
  by (auto simp: rephrase_query_def classified_def subscript_def Let_def
           split: prod.splits sum.splits if_splits option.splits)

lemma rephrase_query_good_trace:
  "rephrase_query gw uq w = (r, w1, t1) \<Longrightarrow> classified gw (t1 @ rest) verdict \<Longrightarrow>
     \<exists>p content. t1 = [Event Classify p (Inr content)]"
  by (auto simp: rephrase_query_def classified_def Let_def
           split: prod.splits sum.splits if_splits option.splits)

text \<open>
  C3. If the run began with a classification call whose answer decodes to a verdict with
  \<open>query_type\<close> equal to \<open>"wrong"\<close>, that call is the only call of the run (no SQL
  generation, no execution, no repair), and the method returns the envelope
  \<open>{"user_query": user_query, "error": ...}\<close> whose error is the text of the \<open>ValueError\<close>
  that \<open>rephrase_query\<close> raises.
\<close>

theorem wrong_query_stops_the_pipeline:
  assumes "classified gw (trace (process_query_for_selected_table gw self uq max_retries w)) verdict"
      and "verdict ''query_type'' = Some (JStr ''wrong'')"
  shows "returned (process_query_for_selected_table gw self uq max_retries w)
           = Inr (Some [(''user_query'', Str uq), (''error'', Str irrelevant_query)])
       \<and> (\<exists>p content. trace (process_query_for_selected_table gw self uq max_retries w)
                          = [Event Classify p (Inr content)])
       \<and> calls Generate (trace (process_query_for_selected_table gw self uq max_retries w)) = []
       \<and> calls Execute (trace (process_query_for_selected_table gw self uq max_retries w)) = []
       \<and> calls Repair (trace (process_query_for_selected_table gw self uq max_retries w)) = []"
proof -
  obtain r w' tr where run: "process_body gw self uq max_retries w = (r, w', tr)"
    by (metis prod_cases3)
  note full = process_run[OF run]
  from assms(1) full have cl: "classified gw tr verdict" by (simp add: trace_def)
  from run show ?thesis
  proof (cases rule: process_body_cases)
    case no_table
    with cl show ?thesis by (simp add: classified_def)
  next
    case (classify_raises tbl sch e w1 t1)
    from cl classify_raises(5) have cl1: "classified gw (t1 @ []) verdict" by simp
    from rephrase_query_wrong[OF classify_raises(3) cl1 assms(2)]
    have e: "e = ValueError irrelevant_query" by simp
    from rephrase_query_good_trace[OF classify_raises(3) cl1]
    obtain p content where "t1 = [Event Classify p (Inr content)]" by blast
    with e classify_raises(4,5) full show ?thesis
      by (simp add: returned_def trace_def calls_def error_envelope_def)
  next
    case (generate_raises tbl sch rephrased w1 t1 e)
    from cl generate_raises(5)
    have "classified gw (t1 @ [Event Generate (generation_prompt (prompts gw) rephrased tbl sch) (Inl e)]) verdict"
      by simp
    from rephrase_query_wrong[OF generate_raises(3) this assms(2)] show ?thesis by simp
  next
    case (looped tbl sch rephrased w1 t1 sql w2 t3)
    from cl looped(5)
    have "classified gw (t1 @ ([Event Generate (generation_prompt (prompts gw) rephrased tbl sch) (Inr sql)] @ t3)) verdict"
      by simp
    from rephrase_query_wrong[OF looped(3) this assms(2)] show ?thesis by simp
  qed
qed

lemma wrong_run:
  "process_query_for_selected_table
     (stub wrong_verdict (Inr ''SELECT 1'') (Inr ''ok'') (\<lambda>n. no_data)) orders ''tell me a joke'' 3 0
   = (Inr (Some [(''user_query'', Str ''tell me a joke''), (''error'', Str irrelevant_query)]),
      0, [Event Classify ''classify tell me a joke'' (Inr ''{}'')])"
  by code_simp

theorem wrong_query_stops_the_pipeline_witness:
  "classified (stub wrong_verdict (Inr ''SELECT 1'') (Inr ''ok'') (\<lambda>n. no_data))
     (trace (process_query_for_selected_table
        (stub wrong_verdict (Inr ''SELECT 1'') (Inr ''ok'') (\<lambda>n. no_data)) orders ''tell me a joke'' 3 0))
     wrong_verdict
   \<and> wrong_verdict ''query_type'' = Some (JStr ''wrong'')
   \<and> returned (process_query_for_selected_table
        (stub wrong_verdict (Inr ''SELECT 1'') (Inr ''ok'') (\<lambda>n. no_data)) orders ''tell me a joke'' 3 0)
       = Inr (Some [(''user_query'', Str ''tell me a joke''), (''error'', Str irrelevant_query)])
   \<and> calls Generate (trace (process_query_for_selected_table
        (stub wrong_verdict (Inr ''SELECT 1'') (Inr ''ok'') (\<lambda>n. no_data)) orders ''tell me a joke'' 3 0)) = []
   \<and> calls Execute (trace (process_query_for_selected_table
        (stub wrong_verdict (Inr ''SELECT 1'') (Inr ''ok'') (\<lambda>n. no_data)) orders ''tell me a joke'' 3 0)) = []
   \<and> calls Repair (trace (process_query_for_selected_table
        (stub wrong_verdict (Inr ''SELECT 1'') (Inr ''ok'') (\<lambda>n. no_data)) orders ''tell me a joke'' 3 0)) = []"
proof -
  let ?gw = "stub wrong_verdict (Inr ''SELECT 1'') (Inr ''ok'') (\<lambda>n. no_data)"
  have h1: "classified ?gw (trace (process_query_for_selected_table ?gw orders ''tell me a joke'' 3 0))
              wrong_verdict"
    unfolding wrong_run trace_def classified_def by (simp add: stub_def)
  have h2: "wrong_verdict ''query_type'' = Some (JStr ''wrong'')"
    by (simp add: wrong_verdict_def)
  from wrong_query_stops_the_pipeline[OF h1 h2] h1 h2 show ?thesis by simp
qed

text \<open>
  C8. If the verdict's \<open>query_type\<close> is not \<open>"wrong"\<close> and its \<open>queries\<close> is the empty
  list, \<open>rephrase_query\<close> returns the user's text unchanged and does not raise, and the
  run goes on: its next call is the SQL generation, whose prompt is built from the
  user's text.
\<close>

theorem empty_candidates_keep_the_user_text:
  assumes "classified gw (trace (process_query_for_selected_table gw self uq max_retries w)) verdict"
      and "verdict ''query_type'' = Some query_type" and "query_type \<noteq> JStr ''wrong''"
      and "verdict ''queries'' = Some (JList [])"
  shows "returned (rephrase_query gw uq w) = Inr uq
       \<and> (\<exists>tbl sch p content out rest.
             selected_table self = Some tbl \<and> table_schema self = Some sch
           \<and> trace (process_query_for_selected_table gw self uq max_retries w)
               = Event Classify p (Inr content)
                 # Event Generate (generation_prompt (prompts gw) uq tbl sch) out # rest)"
proof -
  obtain r w' tr where run: "process_body gw self uq max_retries w = (r, w', tr)"
    by (metis prod_cases3)
  note full = process_run[OF run]
  from assms(1) full have cl: "classified gw tr verdict" by (simp add: trace_def)
  from run show ?thesis
  proof (cases rule: process_body_cases)
    case no_table
    with cl show ?thesis by (simp add: classified_def)
  next
    case (classify_raises tbl sch e w1 t1)
    from cl classify_raises(5) have cl1: "classified gw (t1 @ []) verdict" by simp
    from rephrase_query_empty[OF classify_raises(3) cl1 assms(2,3,4)]
    show ?thesis by simp
  next
    case (generate_raises tbl sch rephrased w1 t1 e)
    from cl generate_raises(5)
    have cl1: "classified gw (t1 @ [Event Generate (generation_prompt (prompts gw) rephrased tbl sch) (Inl e)]) verdict"
      by simp
    from rephrase_query_empty[OF generate_raises(3) cl1 assms(2,3,4)]
    have re: "rephrased = uq" by simp
    from rephrase_query_good_trace[OF generate_raises(3) cl1]
    obtain p content where "t1 = [Event Classify p (Inr content)]" by blast
    with re generate_raises full show ?thesis
      by (simp add: returned_def trace_def)
  next
    case (looped tbl sch rephrased w1 t1 sql w2 t3)
    from cl looped(5)
    have cl1: "classified gw (t1 @ ([Event Generate (generation_prompt (prompts gw) rephrased tbl sch) (Inr sql)] @ t3)) verdict"
      by simp
    from rephrase_query_empty[OF looped(3) cl1 assms(2,3,4)]
    have re: "rephrased = uq" by simp
    from rephrase_query_good_trace[OF looped(3) cl1]
    obtain p content where "t1 = [Event Classify p (Inr content)]" by blast
    with re looped full show ?thesis
      by (simp add: returned_def trace_def)
  qed
qed

lemma bare_run:
  "process_query_for_selected_table
     (stub bare_verdict (Inr ''SELECT 1'') (Inr ''ok'') (\<lambda>n. no_data)) orders ''total revenue last week'' 3 0
   = (Inr (Some
        [(''user_query'', Str ''total revenue last week''),
         (''rephrased_query'', Str ''total revenue last week''),
         (''selected_table'', Str ''orders''),
         (''sql_query'', Str ''SELECT 1''),
         (''result'', Str ''Query executed successfully, but returned no data.''),
         (''summary'', Str ''ok'')]),
      1,
      [Event Classify ''classify total revenue last week'' (Inr ''{}''),
       Event Generate (''generate for orders'' @ [CHR 10, CHR 10] @ ''Question: total revenue last week'')
         (Inr ''SELECT 1''),
       Event Execute ''SELECT 1'' (Inr ''Query executed successfully, but returned no data.''),
       Event Summarize ''summarize Query executed successfully, but returned no data.'' (Inr ''ok'')])"
  by code_simp

theorem empty_candidates_keep_the_user_text_witness:
  "classified (stub bare_verdict (Inr ''SELECT 1'') (Inr ''ok'') (\<lambda>n. no_data))
     (trace (process_query_for_selected_table
        (stub bare_verdict (Inr ''SELECT 1'') (Inr ''ok'') (\<lambda>n. no_data)) orders
        ''total revenue last week'' 3 0))
     bare_verdict
   \<and> bare_verdict ''query_type'' = Some (JStr ''valid'') \<and> JStr ''valid'' \<noteq> JStr ''wrong''
   \<and> bare_verdict ''queries'' = Some (JList [])
   \<and> returned (rephrase_query (stub bare_verdict (Inr ''SELECT 1'') (Inr ''ok'') (\<lambda>n. no_data))
        ''total revenue last week'' 0) = Inr ''total revenue last week''
   \<and> (\<exists>tbl sch p content out rest.
         selected_table orders = Some tbl \<and> table_schema orders = Some sch
       \<and> trace (process_query_for_selected_table
            (stub bare_verdict (Inr ''SELECT 1'') (Inr ''ok'') (\<lambda>n. no_data)) orders
            ''total revenue last week'' 3 0)
           = Event Classify p (Inr content)
             # Event Generate
                 (generation_prompt (prompts (stub bare_verdict (Inr ''SELECT 1'') (Inr ''ok'') (\<lambda>n. no_data)))
                    ''total revenue last week'' tbl sch) out
             # rest)"
proof -
  let ?gw = "stub bare_verdict (Inr ''SELECT 1'') (Inr ''ok'') (\<lambda>n. no_data)"
  have h1: "classified ?gw
              (trace (process_query_for_selected_table ?gw orders ''total revenue last week'' 3 0))
              bare_verdict"
    unfolding bare_run trace_def classified_def by (simp add: stub_def)
  have h2: "bare_verdict ''query_type'' = Some (JStr ''valid'')"
    and h4: "bare_verdict ''queries'' = Some (JList [])"
    by (simp_all add: bare_verdict_def)
  have h3: "JStr ''valid'' \<noteq> JStr ''wrong''" by simp
  from empty_candidates_keep_the_user_text[OF h1 h2 h3 h4] h1 h2 h3 h4 show ?thesis by blast
qed

text \<open>
  C10, as amended. With \<open>max_retries \<le> 0\<close>, a table selected, a classification that
  returns (does not reject the input and does not raise) and an SQL generation that
  returns, the method makes the classification call and the generation call, makes no
  execution call, and returns \<open>None\<close>.
\<close>

theorem no_retries_returns_none:
  assumes "max_retries \<le> 0"
      and "selected_table self = Some tbl" and "table_schema self = Some sch"
      and "rephrase_query gw uq w = (Inr rephrased, w1, t1)"
      and "generate_sql gw rephrased tbl sch w1 = (Inr sql, w2, t2)"
  shows "process_query_for_selected_table gw self uq max_retries w = (Inr None, w2, t1 @ t2)
       \<and> length (calls Classify (t1 @ t2)) = 1
       \<and> length (calls Generate (t1 @ t2)) = 1
       \<and> calls Execute (t1 @ t2) = []"
proof -
  from assms(1) have stop: "\<not> 0 < max_retries" by simp
  from rephrase_query_trace[OF assms(4)] obtain p out where t1: "t1 = [Event Classify p out]"
    by blast
  from generate_sql_trace[OF assms(5)] obtain p' out' where t2: "t2 = [Event Generate p' out']"
    by blast
  have "process_body gw self uq max_retries w = (Inr None, w2, t1 @ t2)"
    using assms(2-5) stop
    by (simp add: process_body_def retry_loop.simps)
  from process_run[OF this] t1 t2 show ?thesis by (simp add: calls_def)
qed

lemma zero_run_classify:
  "rephrase_query (stub valid_verdict (Inr ''SELECT 1'') (Inr ''ok'') (\<lambda>n. no_data)) ''total revenue'' 0
   = (Inr ''total revenue'', 0, [Event Classify ''classify total revenue'' (Inr ''{}'')])"
  by code_simp

lemma zero_run_generate:
  "generate_sql (stub valid_verdict (Inr ''SELECT 1'') (Inr ''ok'') (\<lambda>n. no_data)) ''total revenue''
     ''orders'' ''{id: Int, total: Float}'' 0
   = (Inr ''SELECT 1'', 0,
      [Event Generate (''generate for orders'' @ [CHR 10, CHR 10] @ ''Question: total revenue'')
         (Inr ''SELECT 1'')])"
  by code_simp

theorem no_retries_returns_none_witness:
  "(0::int) \<le> 0
   \<and> selected_table orders = Some ''orders'' \<and> table_schema orders = Some ''{id: Int, total: Float}''
   \<and> process_query_for_selected_table
        (stub valid_verdict (Inr ''SELECT 1'') (Inr ''ok'') (\<lambda>n. no_data)) orders ''total revenue'' 0 0
       = (Inr None, 0,
          [Event Classify ''classify total revenue'' (Inr ''{}''),
           Event Generate (''generate for orders'' @ [CHR 10, CHR 10] @ ''Question: total revenue'')
             (Inr ''SELECT 1'')])"
proof -
  have h1: "(0::int) \<le> 0" by simp
  have h2: "selected_table orders = Some ''orders''"
    and h3: "table_schema orders = Some ''{id: Int, total: Float}''"
    by (simp_all add: orders_def)
  from no_retries_returns_none[OF h1 h2 h3 zero_run_classify zero_run_generate] h2 h3
  show ?thesis by simp
qed

lemma generation_raises_run:
  "process_query_for_selected_table
     (stub valid_verdict (Inl (Raised ''rate limit'')) (Inr ''ok'') (\<lambda>n. no_data))
     orders ''total revenue'' 0 0
   = (Inr (Some [(''user_query'', Str ''total revenue''), (''error'', Str ''rate limit'')]), 0,
      [Event Classify ''classify total revenue'' (Inr ''{}''),
       Event Generate (''generate for orders'' @ [CHR 10, CHR 10] @ ''Question: total revenue'')
         (Inl (Raised ''rate limit''))])"
  by code_simp

lemma generation_raises_classify:
  "rephrase_query (stub valid_verdict (Inl (Raised ''rate limit'')) (Inr ''ok'') (\<lambda>n. no_data))
     ''total revenue'' 0
   = (Inr ''total revenue'', 0, [Event Classify ''classify total revenue'' (Inr ''{}'')])"
  by code_simp

text \<open>
  The claim without the condition on the generation call fails: with \<open>max_retries = 0\<close>
  and a classification that accepts the input, a generation call that raises makes the
  method return the error envelope, not \<open>None\<close>.
\<close>

theorem no_retries_generation_raises:
  "classified (stub valid_verdict (Inl (Raised ''rate limit'')) (Inr ''ok'') (\<lambda>n. no_data))
     (trace (process_query_for_selected_table
        (stub valid_verdict (Inl (Raised ''rate limit'')) (Inr ''ok'') (\<lambda>n. no_data))
        orders ''total revenue'' 0 0))
     valid_verdict
   \<and> valid_verdict ''query_type'' = Some (JStr ''valid'')
   \<and> returned (rephrase_query (stub valid_verdict (Inl (Raised ''rate limit'')) (Inr ''ok'') (\<lambda>n. no_data))
        ''total revenue'' 0) = Inr ''total revenue''
   \<and> calls Execute (trace (process_query_for_selected_table
        (stub valid_verdict (Inl (Raised ''rate limit'')) (Inr ''ok'') (\<lambda>n. no_data))
        orders ''total revenue'' 0 0)) = []
   \<and> returned (process_query_for_selected_table
        (stub valid_verdict (Inl (Raised ''rate limit'')) (Inr ''ok'') (\<lambda>n. no_data))
        orders ''total revenue'' 0 0)
       = Inr (Some [(''user_query'', Str ''total revenue''), (''error'', Str ''rate limit'')])
   \<and> returned (process_query_for_selected_table
        (stub valid_verdict (Inl (Raised ''rate limit'')) (Inr ''ok'') (\<lambda>n. no_data))
        orders ''total revenue'' 0 0)
       \<noteq> Inr None"
  unfolding generation_raises_run generation_raises_classify trace_def classified_def returned_def
  by (simp add: stub_def valid_verdict_def calls_def)

subsection \<open>A first execution that succeeds\<close>



lemma no_data_has_no_sentinel: "\<not> contains sentinel no_data"
  by code_simp

lemma broken_has_sentinel: "contains sentinel broken"
  by code_simp


subsection \<open>Retries exhausted\<close>

lemma retry_loop_all_failed:
  "retry_loop gw c m q rc errs w = (r, w', tr) \<Longrightarrow> rc < m \<Longrightarrow>
   int (length (calls Execute tr)) = m - rc + 1 \<Longrightarrow>
   list_all failed_execution (calls Execute tr) \<Longrightarrow>
     \<exists>msgs q'. r = Inr (Some (failed_envelope c (errs @ msgs) q')) \<and> int (length msgs) = m - rc"
proof (induction "nat (m - rc)" arbitrary: q rc errs w tr)
  case 0
  then show ?case by simp
next
  case (Suc n)
  from Suc.prems(1,2) show ?case
  proof (cases rule: retry_loop_cases)
    case (exec_raises e)
    with Suc.prems(4) show ?thesis by (simp add: calls_def failed_execution_def)
  next
    case (succeeded res p out)
    with Suc.prems(4) show ?thesis by (simp add: calls_def failed_execution_def)
  next
    case (repair_raises res msg p e)
    with Suc.prems(2,3) show ?thesis by (simp add: calls_def)
  next
    case (final_raises res msg p sql e)
    with Suc.prems(4) show ?thesis by (simp add: calls_def failed_execution_def)
  next
    case (final_failed res msg p sql res2)
    have "errs @ [msg] = errs @ [msg] \<and> int (length [msg]) = m - rc"
      using final_failed(1) by simp
    with final_failed(6) show ?thesis by blast
  next
    case (final_succeeded res msg p sql res2 p2 out)
    with Suc.prems(4) show ?thesis by (simp add: calls_def failed_execution_def)
  next
    case (again res msg p sql w2 t')
    from Suc.hyps(2) again(1) have n: "n = nat (m - (rc + 1))" by simp
    from again(4) Suc.prems(3) have cnt: "int (length (calls Execute t')) = m - (rc + 1) + 1"
      by (simp add: calls_def)
    from again(4) Suc.prems(4) have all: "list_all failed_execution (calls Execute t')"
      by (simp add: calls_def)
    from Suc.hyps(1)[OF n again(5) again(1) cnt all]
    obtain msgs q' where r: "r = Inr (Some (failed_envelope c ((errs @ [msg]) @ msgs) q'))"
      and len: "int (length msgs) = m - (rc + 1)" by blast
    from r have "r = Inr (Some (failed_envelope c (errs @ (msg # msgs)) q'))" by simp
    moreover from len have "int (length (msg # msgs)) = m - rc" by simp
    ultimately show ?thesis by blast
  qed
qed

text \<open>
  C2, as amended. If the run makes \<open>max_retries + 1\<close> execution calls (with
  \<open>max_retries \<ge> 0\<close>) and every one returns a text holding the sentinel, the returned
  envelope has an \<open>error_messages\<close> list of exactly \<open>max_retries\<close> entries (one for each
  execution that was followed by a repair; the message of the last execution is not
  appended) and no \<open>summary\<close> field.
\<close>

theorem exhausted_retries_list_every_repaired_error:
  assumes "0 \<le> max_retries"
      and "int (length (calls Execute
                 (trace (process_query_for_selected_table gw self uq max_retries w))))
             = max_retries + 1"
      and "list_all failed_execution
             (calls Execute (trace (process_query_for_selected_table gw self uq max_retries w)))"
  shows "\<exists>env msgs. returned (process_query_for_selected_table gw self uq max_retries w)
                       = Inr (Some env)
              \<and> map_of env ''error_messages'' = Some (StrList msgs)
              \<and> int (length msgs) = max_retries
              \<and> \<not> has_field ''summary'' env"
proof -
  obtain r w' tr where run: "process_body gw self uq max_retries w = (r, w', tr)"
    by (metis prod_cases3)
  note full = process_run[OF run]
  from assms(2) full have cnt: "int (length (calls Execute tr)) = max_retries + 1"
    by (simp add: trace_def)
  from assms(3) full have all: "list_all failed_execution (calls Execute tr)"
    by (simp add: trace_def)
  from run show ?thesis
  proof (cases rule: process_body_cases)
    case no_table
    with cnt assms(1) show ?thesis by (simp add: calls_def)
  next
    case (classify_raises tbl sch e w1 t1)
    from rephrase_query_trace[OF classify_raises(3)] classify_raises(5) cnt assms(1)
    show ?thesis by (auto simp: calls_def)
  next
    case (generate_raises tbl sch rephrased w1 t1 e)
    from rephrase_query_trace[OF generate_raises(3)] generate_raises(5) cnt assms(1)
    show ?thesis by (auto simp: calls_def)
  next
    case (looped tbl sch rephrased w1 t1 sql w2 t3)
    let ?c = "\<lparr>user_query = uq, rephrased_query = rephrased, table = tbl, schema = sch,
                sql_query = strip sql\<rparr>"
    from rephrase_query_trace[OF looped(3)] obtain p out where t1: "t1 = [Event Classify p out]"
      by blast
    with looped(5) have ex: "calls Execute tr = calls Execute t3" by (simp add: calls_def)
    show ?thesis
    proof (cases "0 < max_retries")
      case False
      with looped(4) have "t3 = []" by (simp add: retry_loop.simps)
      with ex cnt assms(1) show ?thesis by (simp add: calls_def)
    next
      case True
      from cnt ex have cnt3: "int (length (calls Execute t3)) = max_retries - 0 + 1" by simp
      from all ex have all3: "list_all failed_execution (calls Execute t3)" by simp
      from retry_loop_all_failed[OF looped(4) True cnt3 all3]
      obtain msgs q' where r: "r = Inr (Some (failed_envelope ?c ([] @ msgs) q'))"
        and len: "int (length msgs) = max_retries - 0" by blast
      from r full have ret: "returned (process_query_for_selected_table gw self uq max_retries w)
          = Inr (Some (failed_envelope ?c msgs q'))" by (simp add: returned_def)
      have "map_of (failed_envelope ?c msgs q') ''error_messages'' = Some (StrList msgs)"
        "\<not> has_field ''summary'' (failed_envelope ?c msgs q')"
        by (simp_all add: failed_envelope_def has_field_def)
      with ret len show ?thesis by auto
    qed
  qed
qed

theorem exhausted_retries_list_every_repaired_error_witness:
  "(0::int) \<le> 3
   \<and> int (length (calls Execute (trace (process_query_for_selected_table
         (stub valid_verdict (Inr ''SELECT 1'') (Inr ''ok'') (\<lambda>n. broken)) orders ''q'' 3 0)))) = 3 + 1
   \<and> list_all failed_execution (calls Execute (trace (process_query_for_selected_table
         (stub valid_verdict (Inr ''SELECT 1'') (Inr ''ok'') (\<lambda>n. broken)) orders ''q'' 3 0)))
   \<and> (\<exists>env msgs. returned (process_query_for_selected_table
         (stub valid_verdict (Inr ''SELECT 1'') (Inr ''ok'') (\<lambda>n. broken)) orders ''q'' 3 0)
            = Inr (Some env)
        \<and> map_of env ''error_messages'' = Some (StrList msgs)
        \<and> int (length msgs) = 3
        \<and> \<not> has_field ''summary'' env)"
proof -
  let ?run = "process_query_for_selected_table
         (stub valid_verdict (Inr ''SELECT 1'') (Inr ''ok'') (\<lambda>n. broken)) orders ''q'' 3 0"
  have h1: "(0::int) \<le> 3" by simp
  have b: "contains sentinel ''Error executing custom query: no such column''"
    using broken_has_sentinel by (simp add: broken_def)
  have h2: "int (length (calls Execute (trace ?run))) = 3 + 1"
    by (simp add: always_broken_run trace_def calls_def)
  have h3: "list_all failed_execution (calls Execute (trace ?run))"
    by (simp add: always_broken_run trace_def calls_def failed_execution_def b del: contains.simps)
  from exhausted_retries_list_every_repaired_error[OF h1 h2 h3] h1 h2 h3 show ?thesis by blast
qed

text \<open>
  The claim as stated (\<open>max_retries + 1\<close> entries) fails: with three retries and four
  failed executions the list has three entries.
\<close>

theorem exhausted_retries_error_list_is_one_short:
  "int (length (calls Execute (trace (process_query_for_selected_table
         (stub valid_verdict (Inr ''SELECT 1'') (Inr ''ok'') (\<lambda>n. broken)) orders ''q'' 3 0)))) = 3 + 1
   \<and> list_all failed_execution (calls Execute (trace (process_query_for_selected_table
         (stub valid_verdict (Inr ''SELECT 1'') (Inr ''ok'') (\<lambda>n. broken)) orders ''q'' 3 0)))
   \<and> (\<exists>env. returned (process_query_for_selected_table
         (stub valid_verdict (Inr ''SELECT 1'') (Inr ''ok'') (\<lambda>n. broken)) orders ''q'' 3 0)
            = Inr (Some env)
        \<and> map_of env ''error_messages''
            = Some (StrList [''no such column'', ''no such column'', ''no such column'']))
   \<and> int (length [''no such column'', ''no such column'', ''no such column'']) \<noteq> 3 + 1"
proof -
  have b: "contains sentinel ''Error executing custom query: no such column''"
    using broken_has_sentinel by (simp add: broken_def)
  show ?thesis
    by (simp add: always_broken_run trace_def calls_def failed_execution_def b returned_def
          del: contains.simps)
qed

subsection \<open>The summary field\<close>

lemma retry_loop_summary:
  "retry_loop gw c m q rc errs w = (r, w', tr) \<Longrightarrow> rc < m \<Longrightarrow>
     (list_ex summarized tr \<longleftrightarrow> (\<exists>env. r = Inr (Some env) \<and> has_field ''summary'' env))
   \<and> (list_ex summarized tr \<longrightarrow> list_ex successful_execution tr)"
proof (induction "nat (m - rc)" arbitrary: q rc errs w tr)
  case 0
  then show ?case by simp
next
  case (Suc n)
  from Suc.prems(1,2) show ?case
  proof (cases rule: retry_loop_cases)
    case (exec_raises e)
    then show ?thesis by (simp add: summarized_def)
  next
    case (succeeded res p out)
    then show ?thesis
      by (cases out)
         (simp_all add: summarized_def successful_execution_def has_field_def
                        first_try_envelope_def corrected_envelope_def)
  next
    case (repair_raises res msg p e)
    then show ?thesis by (simp add: summarized_def)
  next
    case (final_raises res msg p sql e)
    then show ?thesis by (simp add: summarized_def)
  next
    case (final_failed res msg p sql res2)
    then show ?thesis by (simp add: summarized_def has_field_def failed_envelope_def)
  next
    case (final_succeeded res msg p sql res2 p2 out)
    then show ?thesis
      by (cases out)
         (simp_all add: summarized_def successful_execution_def has_field_def corrected_envelope_def)
  next
    case (again res msg p sql w2 t')
    from Suc.hyps(2) again(1) have n: "n = nat (m - (rc + 1))" by simp
    from Suc.hyps(1)[OF n again(5) again(1)] again(2,4) show ?thesis
      by (simp add: summarized_def successful_execution_def)
  qed
qed

text \<open>
  C6, as amended. In every envelope the method returns, the \<open>summary\<close> field is present
  if and only if the run had an execution call that returned a text without the
  sentinel and a summarization call that returned. So a failure envelope never has a
  summary, and a successful execution gives one unless the summarization call raised.
\<close>

theorem summary_iff_success_and_summarized:
  assumes "returned (process_query_for_selected_table gw self uq max_retries w) = Inr (Some env)"
  shows "has_field ''summary'' env \<longleftrightarrow>
           list_ex successful_execution
             (trace (process_query_for_selected_table gw self uq max_retries w))
         \<and> list_ex summarized
             (trace (process_query_for_selected_table gw self uq max_retries w))"
proof -
  obtain r w' tr where run: "process_body gw self uq max_retries w = (r, w', tr)"
    by (metis prod_cases3)
  note full = process_run[OF run]
  from full have tr: "trace (process_query_for_selected_table gw self uq max_retries w) = tr"
    by (simp add: trace_def)
  from full assms
  have env: "(case r of Inl e \<Rightarrow> Inr (Some (error_envelope uq e)) | Inr x \<Rightarrow> Inr x) = Inr (Some env)"
    by (cases r) (simp_all add: returned_def)
  have no_summary: "\<not> has_field ''summary'' (error_envelope uq e)" for e
    by (simp add: has_field_def error_envelope_def)
  from run show ?thesis
  proof (cases rule: process_body_cases)
    case no_table
    with env tr show ?thesis by (auto simp: has_field_def)
  next
    case (classify_raises tbl sch e w1 t1)
    from rephrase_query_trace[OF classify_raises(3)] classify_raises(4,5) env tr no_summary
    show ?thesis by (auto simp: summarized_def)
  next
    case (generate_raises tbl sch rephrased w1 t1 e)
    from rephrase_query_trace[OF generate_raises(3)] generate_raises(4,5) env tr no_summary
    show ?thesis by (auto simp: summarized_def)
  next
    case (looped tbl sch rephrased w1 t1 sql w2 t3)
    from rephrase_query_trace[OF looped(3)] obtain p out where t1: "t1 = [Event Classify p out]"
      by blast
    from t1 looped(5) have su: "list_ex summarized tr = list_ex summarized t3"
      and ex: "list_ex successful_execution tr = list_ex successful_execution t3"
      by (simp_all add: summarized_def successful_execution_def)
    show ?thesis
    proof (cases "0 < max_retries")
      case False
      with looped(4) have "r = Inr None" by (simp add: retry_loop.simps)
      with env show ?thesis by simp
    next
      case True
      note loop = retry_loop_summary[OF looped(4) True]
      show ?thesis
      proof (cases r)
        case (Inl e)
        with env have "env = error_envelope uq e" by simp
        with loop Inl no_summary su tr show ?thesis by simp
      next
        case (Inr x)
        with env have "r = Inr (Some env)" by simp
        with loop su ex tr show ?thesis by auto
      qed
    qed
  qed
qed

text \<open>
  The claim without the condition on the summarization call fails: when the first
  execution succeeds and the summarization call raises, the handler returns the error
  envelope, which has no summary although a successful execution occurred.
\<close>

lemma summary_raises_run:
  "process_query_for_selected_table
     (stub valid_verdict (Inr ''SELECT 1'') (Inl (Raised ''timeout'')) (\<lambda>n. no_data)) orders ''q'' 3 0
   = (Inr (Some [(''user_query'', Str ''q''), (''error'', Str ''timeout'')]), 1,
      [Event Classify ''classify q'' (Inr ''{}''),
       Event Generate (''generate for orders'' @ [CHR 10, CHR 10] @ ''Question: total revenue'')
         (Inr ''SELECT 1''),
       Event Execute ''SELECT 1'' (Inr ''Query executed successfully, but returned no data.''),
       Event Summarize ''summarize Query executed successfully, but returned no data.''
         (Inl (Raised ''timeout''))])"
  by code_simp

theorem success_without_summary:
  "returned (process_query_for_selected_table
      (stub valid_verdict (Inr ''SELECT 1'') (Inl (Raised ''timeout'')) (\<lambda>n. no_data)) orders ''q'' 3 0)
     = Inr (Some [(''user_query'', Str ''q''), (''error'', Str ''timeout'')])
   \<and> list_ex successful_execution (trace (process_query_for_selected_table
      (stub valid_verdict (Inr ''SELECT 1'') (Inl (Raised ''timeout'')) (\<lambda>n. no_data)) orders ''q'' 3 0))
   \<and> \<not> has_field ''summary'' [(''user_query'', Str ''q''), (''error'', Str ''timeout'')]"
proof -
  have b: "\<not> contains sentinel ''Query executed successfully, but returned no data.''"
    using no_data_has_no_sentinel by (simp add: no_data_def)
  show ?thesis
    by (simp add: summary_raises_run returned_def trace_def successful_execution_def has_field_def b
          del: contains.simps)
qed

lemma repaired_run:
  "process_query_for_selected_table
     (stub valid_verdict (Inr ''SELECT 1'') (Inr '' Total revenue was 1000. '')
        (\<lambda>n. if n = 0 then broken else no_data)) orders ''q'' 3 0
   = (Inr (Some
        [(''user_query'', Str ''q''),
         (''rephrased_query'', Str ''total revenue''),
         (''selected_table'', Str ''orders''),
         (''original_sql_query'', Str ''SELECT 1''),
         (''error_messages'', StrList [''no such column'']),
         (''final_sql_query'', Str ''SELECT 2''),
         (''result'', Str ''Query executed successfully, but returned no data.''),
         (''summary'', Str ''Total revenue was 1000.'')]),
      2,
      [Event Classify ''classify q'' (Inr ''{}''),
       Event Generate (''generate for orders'' @ [CHR 10, CHR 10] @ ''Question: total revenue'')
         (Inr ''SELECT 1''),
       Event Execute ''SELECT 1'' (Inr ''Error executing custom query: no such column''),
       Event Repair ''repair SELECT 1'' (Inr '' SELECT 2 ''),
       Event Execute ''SELECT 2'' (Inr ''Query executed successfully, but returned no data.''),
       Event Summarize ''summarize Query executed successfully, but returned no data.''
         (Inr '' Total revenue was 1000. '')])"
  by code_simp

theorem summary_iff_success_and_summarized_witness:
  "returned (process_query_for_selected_table
      (stub valid_verdict (Inr ''SELECT 1'') (Inr '' Total revenue was 1000. '')
        (\<lambda>n. if n = 0 then broken else no_data)) orders ''q'' 3 0)
     = Inr (Some
        [(''user_query'', Str ''q''),
         (''rephrased_query'', Str ''total revenue''),
         (''selected_table'', Str ''orders''),
         (''original_sql_query'', Str ''SELECT 1''),
         (''error_messages'', StrList [''no such column'']),
         (''final_sql_query'', Str ''SELECT 2''),
         (''result'', Str ''Query executed successfully, but returned no data.''),
         (''summary'', Str ''Total revenue was 1000.'')])
   \<and> has_field ''summary''
        [(''user_query'', Str ''q''),
         (''rephrased_query'', Str ''total revenue''),
         (''selected_table'', Str ''orders''),
         (''original_sql_query'', Str ''SELECT 1''),
         (''error_messages'', StrList [''no such column'']),
         (''final_sql_query'', Str ''SELECT 2''),
         (''result'', Str ''Query executed successfully, but returned no data.''),
         (''summary'', Str ''Total revenue was 1000.'')]
   \<and> list_ex successful_execution (trace (process_query_for_selected_table
      (stub valid_verdict (Inr ''SELECT 1'') (Inr '' Total revenue was 1000. '')
        (\<lambda>n. if n = 0 then broken else no_data)) orders ''q'' 3 0))
   \<and> list_ex summarized (trace (process_query_for_selected_table
      (stub valid_verdict (Inr ''SELECT 1'') (Inr '' Total revenue was 1000. '')
        (\<lambda>n. if n = 0 then broken else no_data)) orders ''q'' 3 0))"
proof -
  let ?run = "process_query_for_selected_table
      (stub valid_verdict (Inr ''SELECT 1'') (Inr '' Total revenue was 1000. '')
        (\<lambda>n. if n = 0 then broken else no_data)) orders ''q'' 3 0"
  let ?env = "[(''user_query'', Str ''q''),
         (''rephrased_query'', Str ''total revenue''),
         (''selected_table'', Str ''orders''),
         (''original_sql_query'', Str ''SELECT 1''),
         (''error_messages'', StrList [''no such column'']),
         (''final_sql_query'', Str ''SELECT 2''),
         (''result'', Str ''Query executed successfully, but returned no data.''),
         (''summary'', Str ''Total revenue was 1000.'')]"
  have h: "returned ?run = Inr (Some ?env)" unfolding repaired_run returned_def by simp
  have s: "has_field ''summary'' ?env" by (simp add: has_field_def)
  from summary_iff_success_and_summarized[OF h] h s show ?thesis by blast
qed

subsection \<open>Every path returns\<close>

lemma retry_loop_returns:
  "retry_loop gw c m q rc errs w = (r, w', tr) \<Longrightarrow> rc < m \<Longrightarrow>
     (\<exists>e. r = Inl e) \<or> (\<exists>env. r = Inr (Some env) \<and> full_envelope (user_query c) env)"
proof (induction "nat (m - rc)" arbitrary: q rc errs w tr)
  case 0
  then show ?case by simp
next
  case (Suc n)
  from Suc.prems(1,2) show ?case
  proof (cases rule: retry_loop_cases)
    case (succeeded res p out)
    then show ?thesis
      by (cases out)
         (simp_all add: full_envelope_def keys_def first_try_envelope_def corrected_envelope_def)
  next
    case (final_failed res msg p sql res2)
    then show ?thesis by (simp add: full_envelope_def keys_def failed_envelope_def)
  next
    case (final_succeeded res msg p sql res2 p2 out)
    then show ?thesis
      by (cases out) (simp_all add: full_envelope_def keys_def corrected_envelope_def)
  next
    case (again res msg p sql w2 t')
    from Suc.hyps(2) again(1) have n: "n = nat (m - (rc + 1))" by simp
    from Suc.hyps(1)[OF n again(5) again(1)] show ?thesis .
  qed simp_all
qed

lemma has_field_keys: "has_field k e \<longleftrightarrow> k \<in> set (keys e)"
  by (simp add: has_field_def keys_def map_of_eq_None_iff)

lemma full_envelope_has_no_error: "full_envelope uq e \<Longrightarrow> \<not> has_field ''error'' e"
  by (auto simp: full_envelope_def has_field_keys)

text \<open>
  C5, as amended. For every input and every behaviour of the gateways, raising
  (exceptions of class \<open>Exception\<close>) or not, the method raises nothing; with
  \<open>max_retries \<ge> 1\<close> it returns an envelope; and every envelope it returns is
  \<open>{"error": ...}\<close> without the user's query (only when no table is selected), or
  \<open>{"user_query": ..., "error": str(e)}\<close>, or a full envelope with the user's query. A full
  envelope, the one of the exhausted retries included, has no \<open>error\<close> field.
\<close>

theorem every_path_returns:
  "(\<exists>r. returned (process_query_for_selected_table gw self uq max_retries w) = Inr r)
   \<and> (0 < max_retries \<longrightarrow>
        (\<exists>env. returned (process_query_for_selected_table gw self uq max_retries w)
                 = Inr (Some env)))
   \<and> (\<forall>env. returned (process_query_for_selected_table gw self uq max_retries w) = Inr (Some env)
          \<longrightarrow> (env = no_table_selected
                 \<and> (selected_table self = None \<or> table_schema self = None)
               \<or> (\<exists>e. env = [(''user_query'', Str uq), (''error'', Str (str_exn e))])
               \<or> full_envelope uq env \<and> \<not> has_field ''error'' env))"
proof -
  obtain r w' tr where run: "process_body gw self uq max_retries w = (r, w', tr)"
    by (metis prod_cases3)
  note full = process_run[OF run]
  let ?shape = "\<lambda>env. env = no_table_selected
                 \<and> (selected_table self = None \<or> table_schema self = None)
               \<or> (\<exists>e. env = [(''user_query'', Str uq), (''error'', Str (str_exn e))])
               \<or> full_envelope uq env \<and> \<not> has_field ''error'' env"
  have goal: "(\<exists>x. returned (process_query_for_selected_table gw self uq max_retries w) = Inr x)
      \<and> (0 < max_retries \<longrightarrow>
           (\<exists>env. returned (process_query_for_selected_table gw self uq max_retries w)
                    = Inr (Some env)))
      \<and> (\<forall>env. returned (process_query_for_selected_table gw self uq max_retries w)
                  = Inr (Some env) \<longrightarrow> ?shape env)"
    if "(\<exists>env. returned (process_query_for_selected_table gw self uq max_retries w)
                  = Inr (Some env) \<and> ?shape env)
        \<or> returned (process_query_for_selected_table gw self uq max_retries w) = Inr None
          \<and> \<not> 0 < max_retries"
    using that by auto
  from run show ?thesis
  proof (cases rule: process_body_cases)
    case no_table
    with full have "returned (process_query_for_selected_table gw self uq max_retries w)
        = Inr (Some no_table_selected)"
      by (simp add: returned_def no_table_selected_def)
    with no_table(1) show ?thesis by (intro goal) blast
  next
    case (classify_raises tbl sch e w1 t1)
    with full have "returned (process_query_for_selected_table gw self uq max_retries w)
        = Inr (Some [(''user_query'', Str uq), (''error'', Str (str_exn e))])"
      by (simp add: returned_def error_envelope_def)
    then show ?thesis by (intro goal) blast
  next
    case (generate_raises tbl sch rephrased w1 t1 e)
    with full have "returned (process_query_for_selected_table gw self uq max_retries w)
        = Inr (Some [(''user_query'', Str uq), (''error'', Str (str_exn e))])"
      by (simp add: returned_def error_envelope_def)
    then show ?thesis by (intro goal) blast
  next
    case (looped tbl sch rephrased w1 t1 sql w2 t3)
    show ?thesis
    proof (cases "0 < max_retries")
      case False
      with looped(4) have "r = Inr None" by (simp add: retry_loop.simps)
      with full have "returned (process_query_for_selected_table gw self uq max_retries w) = Inr None"
        by (simp add: returned_def)
      with False show ?thesis by (intro goal) blast
    next
      case True
      from retry_loop_returns[OF looped(4) True]
      have "(\<exists>e. r = Inl e) \<or> (\<exists>env. r = Inr (Some env) \<and> full_envelope uq env)" by simp
      then show ?thesis
      proof
        assume "\<exists>e. r = Inl e"
        then obtain e where "r = Inl e" by blast
        with full have "returned (process_query_for_selected_table gw self uq max_retries w)
            = Inr (Some [(''user_query'', Str uq), (''error'', Str (str_exn e))])"
          by (simp add: returned_def error_envelope_def)
        then show ?thesis by (intro goal) blast
      next
        assume "\<exists>env. r = Inr (Some env) \<and> full_envelope uq env"
        then obtain env where "r = Inr (Some env)" and fe: "full_envelope uq env" by blast
        with full have "returned (process_query_for_selected_table gw self uq max_retries w)
            = Inr (Some env)"
          by (simp add: returned_def)
        with fe full_envelope_has_no_error[OF fe] show ?thesis by (intro goal) blast
      qed
    qed
  qed
qed

text \<open>
  With three retries and executions that all fail, the envelope returned is the full
  envelope of the exhausted retries: it has the user's query and no \<open>error\<close> field.
\<close>

theorem every_path_returns_witness:
  "(0::int) < 3
   \<and> returned (process_query_for_selected_table
        (stub valid_verdict (Inr ''SELECT 1'') (Inr ''ok'') (\<lambda>n. broken)) orders ''q'' 3 0)
       = Inr (Some (failed_envelope
            \<lparr>user_query = ''q'', rephrased_query = ''total revenue'', table = ''orders'',
             schema = ''{id: Int, total: Float}'', sql_query = ''SELECT 1''\<rparr>
            [''no such column'', ''no such column'', ''no such column''] ''SELECT 2''))
   \<and> full_envelope ''q'' (failed_envelope
            \<lparr>user_query = ''q'', rephrased_query = ''total revenue'', table = ''orders'',
             schema = ''{id: Int, total: Float}'', sql_query = ''SELECT 1''\<rparr>
            [''no such column'', ''no such column'', ''no such column''] ''SELECT 2'')
   \<and> \<not> has_field ''error'' (failed_envelope
            \<lparr>user_query = ''q'', rephrased_query = ''total revenue'', table = ''orders'',
             schema = ''{id: Int, total: Float}'', sql_query = ''SELECT 1''\<rparr>
            [''no such column'', ''no such column'', ''no such column''] ''SELECT 2'')"
proof -
  let ?run = "process_query_for_selected_table
        (stub valid_verdict (Inr ''SELECT 1'') (Inr ''ok'') (\<lambda>n. broken)) orders ''q'' 3 0"
  let ?env = "failed_envelope
            \<lparr>user_query = ''q'', rephrased_query = ''total revenue'', table = ''orders'',
             schema = ''{id: Int, total: Float}'', sql_query = ''SELECT 1''\<rparr>
            [''no such column'', ''no such column'', ''no such column''] ''SELECT 2''"
  have h0: "(0::int) < 3" by simp
  have h: "returned ?run = Inr (Some ?env)"
    by (simp add: always_broken_run returned_def failed_envelope_def)
  have not_guard: "?env \<noteq> no_table_selected"
    and not_caught: "\<not> (\<exists>e. ?env = [(''user_query'', Str ''q''), (''error'', Str (str_exn e))])"
    by (simp_all add: failed_envelope_def no_table_selected_def)
  from every_path_returns[of "stub valid_verdict (Inr ''SELECT 1'') (Inr ''ok'') (\<lambda>n. broken)"
         orders "''q''" 3 0, THEN conjunct2, THEN conjunct2, rule_format, OF h]
       not_guard not_caught
  have "full_envelope ''q'' ?env \<and> \<not> has_field ''error'' ?env" by blast
  with h0 h show ?thesis by blast
qed

text \<open>
  The claim as stated fails in both of its parts. With no table selected the envelope of
  the failure has the \<open>error\<close> field only, not the user's query. And when every attempt
  fails the failure envelope has no \<open>error\<close> field at all, so a caller that reads only
  that field does not see the failure.
\<close>

lemma no_table_run:
  "process_query_for_selected_table
     (stub valid_verdict (Inr ''SELECT 1'') (Inr ''ok'') (\<lambda>n. no_data)) fresh ''total revenue'' 3 0
   = (Inr (Some [(''error'', Str ''No table has been selected for this session'')]), 0, [])"
  by code_simp

theorem failure_envelopes_of_other_forms:
  "returned (process_query_for_selected_table
      (stub valid_verdict (Inr ''SELECT 1'') (Inr ''ok'') (\<lambda>n. no_data)) fresh ''total revenue'' 3 0)
     = Inr (Some [(''error'', Str ''No table has been selected for this session'')])
   \<and> \<not> has_field ''user_query'' [(''error'', Str ''No table has been selected for this session'')]
   \<and> (\<exists>env. returned (process_query_for_selected_table
          (stub valid_verdict (Inr ''SELECT 1'') (Inr ''ok'') (\<lambda>n. broken)) orders ''q'' 3 0)
           = Inr (Some env)
        \<and> map_of env ''result'' = Some (Str all_attempts_failed)
        \<and> \<not> has_field ''error'' env)"
  by (simp add: no_table_run always_broken_run returned_def has_field_def all_attempts_failed_def)

subsection \<open>The sentinel decides what a response is\<close>

lemma each_with_next_nth:
  "each_with_next P tr \<Longrightarrow> i < length tr \<Longrightarrow>
     P (tr ! i) (if Suc i < length tr then Some (tr ! Suc i) else None)"
proof (induction P tr arbitrary: i rule: each_with_next.induct)
  case (1 P)
  then show ?case by simp
next
  case (2 P e)
  then show ?case by simp
next
  case (3 P e e' es)
  show ?case
  proof (cases i)
    case 0
    with "3.prems" show ?thesis by simp
  next
    case (Suc k)
    with "3.prems" have "each_with_next P (e' # es)" and "k < length (e' # es)" by simp_all
    from "3.IH"[OF this] Suc show ?thesis by (auto split: if_splits)
  qed
qed

lemma goes_on_before_repair:
  assumes "goes_on e (Some e')" and "kind e' = Repair"
  shows "\<exists>q res. e = Event Execute q (Inr res) \<and> contains sentinel res"
proof (cases e)
  case (Event k q out)
  with assms show ?thesis
    by (cases k; cases out) (auto split: if_splits)
qed

lemma goes_on_not_execute: "kind e \<noteq> Execute \<Longrightarrow> kind e' \<noteq> Repair \<Longrightarrow> goes_on e (Some e')"
  by (cases e; cases "kind e") auto

lemma goes_on_not_execute_end: "kind e \<noteq> Execute \<Longrightarrow> goes_on e None"
  by (cases e; cases "kind e") auto

lemma retry_loop_head:
  "retry_loop gw c m q rc errs w = (r, w', tr) \<Longrightarrow> rc < m \<Longrightarrow>
     \<exists>out rest. tr = Event Execute q out # rest"
  by (erule retry_loop_cases) auto

lemma retry_loop_goes_on:
  "retry_loop gw c m q rc errs w = (r, w', tr) \<Longrightarrow> rc < m \<Longrightarrow> each_with_next goes_on tr"
proof (induction "nat (m - rc)" arbitrary: q rc errs w tr)
  case 0
  then show ?case by simp
next
  case (Suc n)
  from Suc.prems(1,2) show ?case
  proof (cases rule: retry_loop_cases)
    case (again res msg p sql w2 t')
    from Suc.hyps(2) again(1) have n: "n = nat (m - (rc + 1))" by simp
    from Suc.hyps(1)[OF n again(5) again(1)] have ih: "each_with_next goes_on t'" .
    from retry_loop_head[OF again(5) again(1)] obtain out rest where
      t': "t' = Event Execute (strip sql) out # rest" by blast
    with ih again(2,4) show ?thesis by simp
  qed simp_all
qed

lemma retry_loop_last_failed:
  "retry_loop gw c m q rc errs w = (r, w', tr) \<Longrightarrow> rc < m \<Longrightarrow> failed_execution (last tr) \<Longrightarrow>
     \<exists>errs' q'. r = Inr (Some (failed_envelope c errs' q'))"
proof (induction "nat (m - rc)" arbitrary: q rc errs w tr)
  case 0
  then show ?case by simp
next
  case (Suc n)
  from Suc.prems(1,2) show ?case
  proof (cases rule: retry_loop_cases)
    case (again res msg p sql w2 t')
    from Suc.hyps(2) again(1) have n: "n = nat (m - (rc + 1))" by simp
    from retry_loop_head[OF again(5) again(1)] obtain out rest where
      t': "t' = Event Execute (strip sql) out # rest" by blast
    with again(4) Suc.prems(3) have "failed_execution (last t')" by simp
    from Suc.hyps(1)[OF n again(5) again(1) this] show ?thesis .
  qed (use Suc.prems(3) in \<open>auto simp: failed_execution_def\<close>)
qed

lemma process_body_goes_on:
  assumes run: "process_body gw self uq max_retries w = (r, w', tr)"
  shows "each_with_next goes_on tr \<and> (tr \<noteq> [] \<longrightarrow> kind (hd tr) = Classify)
       \<and> (tr \<noteq> [] \<and> failed_execution (last tr) \<longrightarrow>
            (\<exists>env. r = Inr (Some env) \<and> map_of env ''result'' = Some (Str all_attempts_failed)))"
using run
proof (cases rule: process_body_cases)
  case no_table
  then show ?thesis by simp
next
  case (classify_raises tbl sch e w1 t1)
  from rephrase_query_trace[OF classify_raises(3)] classify_raises(5)
  show ?thesis by (auto simp: goes_on_not_execute_end failed_execution_def)
next
  case (generate_raises tbl sch rephrased w1 t1 e)
  from rephrase_query_trace[OF generate_raises(3)] generate_raises(5)
  show ?thesis by (auto simp: goes_on_not_execute goes_on_not_execute_end failed_execution_def)
next
  case (looped tbl sch rephrased w1 t1 sql w2 t3)
  let ?c = "\<lparr>user_query = uq, rephrased_query = rephrased, table = tbl, schema = sch,
              sql_query = strip sql\<rparr>"
  let ?g = "Event Generate (generation_prompt (prompts gw) rephrased tbl sch) (Inr sql)"
  from rephrase_query_trace[OF looped(3)] obtain p out where t1: "t1 = [Event Classify p out]"
    by blast
  with looped(5) have tr: "tr = Event Classify p out # ?g # t3" by simp
  show ?thesis
  proof (cases "0 < max_retries")
    case False
    with looped(4) have "t3 = []" by (simp add: retry_loop.simps)
    with tr show ?thesis
      by (simp add: goes_on_not_execute goes_on_not_execute_end failed_execution_def)
  next
    case True
    from retry_loop_head[OF looped(4) True] obtain out3 rest where
      t3: "t3 = Event Execute (strip sql) out3 # rest" by blast
    from retry_loop_goes_on[OF looped(4) True] have g3: "each_with_next goes_on t3" .
    from tr t3 g3 have 1: "each_with_next goes_on tr"
      by (simp add: goes_on_not_execute)
    from tr have 2: "tr \<noteq> [] \<longrightarrow> kind (hd tr) = Classify" by simp
    have 3: "\<exists>env. r = Inr (Some env) \<and> map_of env ''result'' = Some (Str all_attempts_failed)"
      if "failed_execution (last tr)"
    proof -
      from that tr t3 have "failed_execution (last t3)" by simp
      from retry_loop_last_failed[OF looped(4) True this]
      obtain errs' q' where "r = Inr (Some (failed_envelope ?c errs' q'))" by blast
      then show ?thesis by (simp add: failed_envelope_def all_attempts_failed_def)
    qed
    from 1 2 3 show ?thesis by blast
  qed
qed

text \<open>
  The text the server's \<open>execute_custom_query\<close> tool answers with when the database
  driver raises holds the sentinel, so the client takes it for a failed attempt.
\<close>

lemma server_error_text_has_sentinel:
  "contains sentinel (''Error executing custom query: '' @ m)"
proof -
  have "''Error executing custom query: '' @ m = [] @ sentinel @ ('' '' @ m)"
    by (simp add: sentinel_def)
  then show ?thesis unfolding contains_iff by blast
qed

lemma server_error_is_failed_attempt:
  assumes "query be q d = (Inl e, d')"
  shows "\<exists>t. execute_custom_query_tool be q d = ([TextContent t], d') \<and> contains sentinel t"
  using assms server_error_text_has_sentinel[of "str_exn e"]
  by (simp add: execute_custom_query_tool_def execute_error_def del: contains.simps)

text \<open>
  C4. Take any execution call of a run that returned a text \<open>res\<close>. If the sentinel
  phrase occurs in \<open>res\<close> as a substring, whatever else \<open>res\<close> holds, the response is a
  failed attempt: the next call of the run is a repair call, or there is no next call
  and the method returns the envelope whose \<open>result\<close> says that all attempts failed.
  If the phrase does not occur, the response is a success: the next call is the
  summarization. And a repair call comes only right after an execution call whose text
  holds the phrase.
\<close>

theorem sentinel_decides_failure:
  assumes "tr = trace (process_query_for_selected_table gw self uq max_retries w)"
  shows "(\<forall>i q res. i < length tr \<and> tr ! i = Event Execute q (Inr res) \<longrightarrow>
            (if \<exists>pre post. res = pre @ sentinel @ post
             then (if Suc i < length tr then kind (tr ! Suc i) = Repair
                   else \<exists>env. returned (process_query_for_selected_table gw self uq max_retries w)
                                 = Inr (Some env)
                             \<and> map_of env ''result'' = Some (Str all_attempts_failed))
             else Suc i < length tr \<and> kind (tr ! Suc i) = Summarize))
       \<and> (\<forall>j. j < length tr \<and> kind (tr ! j) = Repair \<longrightarrow>
            0 < j \<and> (\<exists>q res. tr ! (j - 1) = Event Execute q (Inr res)
                          \<and> (\<exists>pre post. res = pre @ sentinel @ post)))"
proof -
  obtain r w' tr' where run: "process_body gw self uq max_retries w = (r, w', tr')"
    by (metis prod_cases3)
  note full = process_run[OF run]
  from full assms have tr: "tr' = tr" by (simp add: trace_def)
  note body = process_body_goes_on[OF run, unfolded tr]
  from body have chain: "each_with_next goes_on tr" by simp
  from body have head: "tr \<noteq> [] \<longrightarrow> kind (hd tr) = Classify" by simp
  from body have fin: "tr \<noteq> [] \<and> failed_execution (last tr) \<longrightarrow>
      (\<exists>env. r = Inr (Some env) \<and> map_of env ''result'' = Some (Str all_attempts_failed))"
    by simp
  have part1: "if \<exists>pre post. res = pre @ sentinel @ post
             then (if Suc i < length tr then kind (tr ! Suc i) = Repair
                   else \<exists>env. returned (process_query_for_selected_table gw self uq max_retries w)
                                 = Inr (Some env)
                             \<and> map_of env ''result'' = Some (Str all_attempts_failed))
             else Suc i < length tr \<and> kind (tr ! Suc i) = Summarize"
    if i: "i < length tr" and ev: "tr ! i = Event Execute q (Inr res)" for i q res
  proof (cases "contains sentinel res")
    case True
    then have sub: "\<exists>pre post. res = pre @ sentinel @ post" by (simp add: contains_iff)
    show ?thesis
    proof (cases "Suc i < length tr")
      case next_there: True
      from each_with_next_nth[OF chain i] ev True next_there
      have "kind (tr ! Suc i) = Repair" by simp
      with sub next_there show ?thesis by simp
    next
      case False
      with i have "i = length tr - 1" by simp
      moreover from i have "tr \<noteq> []" by auto
      ultimately have "last tr = tr ! i" by (simp add: last_conv_nth)
      with ev True have "failed_execution (last tr)" by (simp add: failed_execution_def)
      with fin i obtain env where "r = Inr (Some env)"
        and res: "map_of env ''result'' = Some (Str all_attempts_failed)" by auto
      with full have "returned (process_query_for_selected_table gw self uq max_retries w)
          = Inr (Some env)" by (simp add: returned_def)
      with res sub False show ?thesis by auto
    qed
  next
    case False
    then have sub: "\<not> (\<exists>pre post. res = pre @ sentinel @ post)" by (simp add: contains_iff)
    from each_with_next_nth[OF chain i] ev False
    have "Suc i < length tr \<and> kind (tr ! Suc i) = Summarize"
      by (cases "Suc i < length tr") simp_all
    with sub show ?thesis by simp
  qed
  have part2: "0 < j \<and> (\<exists>q res. tr ! (j - 1) = Event Execute q (Inr res)
                          \<and> (\<exists>pre post. res = pre @ sentinel @ post))"
    if j: "j < length tr" and rep: "kind (tr ! j) = Repair" for j
  proof (cases j)
    case 0
    with j head rep show ?thesis by (simp add: hd_conv_nth)
  next
    case (Suc k)
    with j have k: "k < length tr" "Suc k < length tr" by simp_all
    from each_with_next_nth[OF chain k(1)] k(2) have "goes_on (tr ! k) (Some (tr ! Suc k))" by simp
    from goes_on_before_repair[OF this] rep Suc
    obtain q res where "tr ! k = Event Execute q (Inr res)" "contains sentinel res" by auto
    with Suc show ?thesis by (auto simp: contains_iff)
  qed
  from part1 part2 show ?thesis by blast
qed

text \<open>
  An answer that reports success and whose row data holds the phrase is a failed
  attempt: the run repairs the query and executes again.
\<close>

lemma rows_with_sentinel_run:
  "process_query_for_selected_table
     (stub valid_verdict (Inr ''SELECT 1'') (Inr ''ok'')
        (\<lambda>n. if n = 0 then rows_with_sentinel else no_data)) orders ''q'' 3 0
   = (Inr (Some
        [(''user_query'', Str ''q''),
         (''rephrased_query'', Str ''total revenue''),
         (''selected_table'', Str ''orders''),
         (''original_sql_query'', Str ''SELECT 1''),
         (''error_messages'', StrList [''timeout}]}'']),
         (''final_sql_query'', Str ''SELECT 2''),
         (''result'', Str ''Query executed successfully, but returned no data.''),
         (''summary'', Str ''ok'')]),
      2,
      [Event Classify ''classify q'' (Inr ''{}''),
       Event Generate (''generate for orders'' @ [CHR 10, CHR 10] @ ''Question: total revenue'')
         (Inr ''SELECT 1''),
       Event Execute ''SELECT 1'' (Inr rows_with_sentinel),
       Event Repair ''repair SELECT 1'' (Inr '' SELECT 2 ''),
       Event Execute ''SELECT 2'' (Inr no_data),
       Event Summarize ''summarize Query executed successfully, but returned no data.''
         (Inr ''ok'')])"
  by code_simp

lemma rows_with_sentinel_has_sentinel: "contains sentinel rows_with_sentinel"
  by code_simp

theorem sentinel_decides_failure_witness:
  "trace (process_query_for_selected_table
     (stub valid_verdict (Inr ''SELECT 1'') (Inr ''ok'')
        (\<lambda>n. if n = 0 then rows_with_sentinel else no_data)) orders ''q'' 3 0) ! 2
     = Event Execute ''SELECT 1'' (Inr rows_with_sentinel)
   \<and> (\<exists>pre post. rows_with_sentinel = pre @ sentinel @ post)
   \<and> kind (trace (process_query_for_selected_table
     (stub valid_verdict (Inr ''SELECT 1'') (Inr ''ok'')
        (\<lambda>n. if n = 0 then rows_with_sentinel else no_data)) orders ''q'' 3 0) ! 3) = Repair
   \<and> trace (process_query_for_selected_table
     (stub valid_verdict (Inr ''SELECT 1'') (Inr ''ok'')
        (\<lambda>n. if n = 0 then rows_with_sentinel else no_data)) orders ''q'' 3 0) ! 4
     = Event Execute ''SELECT 2'' (Inr no_data)
   \<and> \<not> (\<exists>pre post. no_data = pre @ sentinel @ post)
   \<and> kind (trace (process_query_for_selected_table
     (stub valid_verdict (Inr ''SELECT 1'') (Inr ''ok'')
        (\<lambda>n. if n = 0 then rows_with_sentinel else no_data)) orders ''q'' 3 0) ! 5) = Summarize"
proof -
  let ?tr = "trace (process_query_for_selected_table
     (stub valid_verdict (Inr ''SELECT 1'') (Inr ''ok'')
        (\<lambda>n. if n = 0 then rows_with_sentinel else no_data)) orders ''q'' 3 0)"
  have len: "length ?tr = 6" by (simp add: rows_with_sentinel_run trace_def)
  have e2: "?tr ! 2 = Event Execute ''SELECT 1'' (Inr rows_with_sentinel)"
    and e4: "?tr ! 4 = Event Execute ''SELECT 2'' (Inr no_data)"
    by (simp_all add: rows_with_sentinel_run trace_def)
  have s2: "\<exists>pre post. rows_with_sentinel = pre @ sentinel @ post"
    using rows_with_sentinel_has_sentinel by (simp add: contains_iff)
  have s4: "\<not> (\<exists>pre post. no_data = pre @ sentinel @ post)"
    using no_data_has_no_sentinel by (simp add: contains_iff)
  note step = sentinel_decides_failure
    [OF refl, where gw = "stub valid_verdict (Inr ''SELECT 1'') (Inr ''ok'')
        (\<lambda>n. if n = 0 then rows_with_sentinel else no_data)" and self = orders and uq = "''q''"
        and max_retries = 3 and w = 0, THEN conjunct1, rule_format]
  from step[of 2 "''SELECT 1''" rows_with_sentinel] e2 s2 len
  have k3: "kind (?tr ! 3) = Repair" by simp
  from step[of 4 "''SELECT 2''" no_data] e4 s4 len
  have k5: "kind (?tr ! 5) = Summarize" by simp
  from e2 s2 k3 e4 s4 k5 show ?thesis by blast
qed

subsection \<open>Selecting a table\<close>

text \<open>
  Whenever \<open>select_table\<close> raises, what reaches the caller is an \<open>HTTPException\<close> with status
  500, the 404 included, and the client's attributes are unchanged.
\<close>

lemma select_table_raises_500:
  assumes "select_table gw self table_name w = (Inl e, self', w')"
  shows "(\<exists>detail. e = HTTPException 500 detail) \<and> self' = self"
  using assms
  by (auto simp: select_table_def split: prod.splits sum.splits option.splits if_splits)

text \<open>
  When \<open>DESCRIBE TABLE\<close> raises or gives no rows, the server's tool answers with one
  non-empty text, and \<open>select_table\<close> takes that text for the schema: it returns its
  success response and sets both attributes.
\<close>

lemma missing_table_text:
  "get_table_schema_tool be table_name d = (content, d') \<Longrightarrow>
   (\<exists>e d1. query be (''DESCRIBE TABLE '' @ table_name) d = (Inl e, d1))
   \<or> (\<exists>res d1. query be (''DESCRIBE TABLE '' @ table_name) d = (Inr res, d1) \<and> result_set res = []) \<Longrightarrow>
   \<exists>t. content = [TextContent t] \<and> t \<noteq> []"
  by (auto simp: get_table_schema_tool_def schema_error_def)

lemma select_missing_table_succeeds:
  assumes "(\<exists>e d1. query be (''DESCRIBE TABLE '' @ table_name) d = (Inl e, d1))
         \<or> (\<exists>res d1. query be (''DESCRIBE TABLE '' @ table_name) d = (Inr res, d1) \<and> result_set res = [])"
  shows "\<exists>response t d'. select_table (connected gw be) self table_name d
            = (Inr response, self\<lparr>selected_table := Some table_name, table_schema := Some t\<rparr>, d')"
proof -
  obtain content d' where tool: "get_table_schema_tool be table_name d = (content, d')"
    by (metis prod.exhaust)
  from missing_table_text[OF tool assms] obtain t where c: "content = [TextContent t]" and t: "t \<noteq> []"
    by blast
  from tool c have "get_table_schema (connected gw be) table_name d = (Inr (Some t), d')"
    by (simp add: get_table_schema_def connected_def mcp_round_trip_def server_call_tool_def)
  with t show ?thesis by (auto simp: select_table_def)
qed

text \<open>
  C7. The claim says that \<open>select_table\<close> fails, and leaves the session alone, when the
  table does not exist or has no columns. The code does not: for the table \<open>missing\<close>, on
  a database where \<open>DESCRIBE TABLE\<close> gives no row and on one where it raises, the call
  returns the success response, with the server's error text as the schema, and stores
  the table name and that text in the client. The test \<open>if not table_schema\<close>, which raises
  the 404, is never true of these texts.
\<close>

theorem select_table_accepts_missing_table:
  "select_table (connected (stub valid_verdict (Inr ''SELECT 1'') (Inr ''ok'') (\<lambda>n. no_data))
                  empty_database) fresh ''missing'' 0
     = (Inr [(''message'', Str (''Table '' @ [CHR 39] @ ''missing'' @ [CHR 39] @ '' selected successfully.'')),
             (''schema'', Str ''Table missing not found or has no columns.'')],
        \<lparr>selected_table = Some ''missing'',
         table_schema = Some ''Table missing not found or has no columns.''\<rparr>,
        0)
   \<and> select_table (connected (stub valid_verdict (Inr ''SELECT 1'') (Inr ''ok'') (\<lambda>n. no_data))
                  unknown_table_database) fresh ''missing'' 0
     = (Inr [(''message'', Str (''Table '' @ [CHR 39] @ ''missing'' @ [CHR 39] @ '' selected successfully.'')),
             (''schema'', Str ''Error retrieving schema for table missing: Code: 60. Unknown table'')],
        \<lparr>selected_table = Some ''missing'',
         table_schema = Some ''Error retrieving schema for table missing: Code: 60. Unknown table''\<rparr>,
        0)"
  by code_simp

end
